theory Spec2Isabelle
  imports Main "HOL-Library.AList"
begin

section \<open>The WebSocket handler: data model\<close>

text \<open>
  This theory embeds the class \<open>WebSocketHandler\<close> (the enhanced WebSocket server of the
  repository). The handler is a single-threaded JavaScript object: every method and every
  event callback runs to completion against the fields of \<open>this\<close>. A method is therefore a
  function from the server state to the server state. What lies outside the object is part
  of the state as well: the \<open>readyState\<close> of every socket, the timers that are still armed,
  and the ordered list of calls the handler made on its collaborators (frames sent, sockets
  closed, database inserts, events emitted, promises settled).

  Values that the handler obtains from the environment (\<open>Date.now()\<close>, the random part of a
  generated identifier, the outcome of a database call) are arguments of the functions.
  Console logging and the notifications to the desktop window (\<open>_log\<close>, \<open>_sendToRenderer\<close>)
  are left out, and so are the timestamps written into outgoing messages.
\<close>

subsection \<open>JSON values\<close>

datatype json =
    JNull
  | JBool bool
  | JNum int
  | JStr string
  | JArr "json list"
  | JObj "(string \<times> json) list"

text \<open>
  An object is the list of its own properties in insertion order, with distinct keys (as
  \<open>JSON.parse\<close> yields it). Numbers are represented by integers. \<open>None\<close> stands for
  \<open>undefined\<close>.
\<close>

fun truthy :: "json \<Rightarrow> bool" where
  "truthy JNull = False"
| "truthy (JBool b) = b"
| "truthy (JNum n) = (n \<noteq> 0)"
| "truthy (JStr s) = (s \<noteq> [])"
| "truthy (JArr xs) = True"
| "truthy (JObj kvs) = True"

fun typeof_object :: "json \<Rightarrow> bool" where
  "typeof_object JNull = True"
| "typeof_object (JArr xs) = True"
| "typeof_object (JObj kvs) = True"
| "typeof_object v = False"

subsection \<open>Strings\<close>

text \<open>
  A string of the model is the UTF-8 encoding of the JavaScript string (with a lone
  surrogate encoded like any other code unit). Identifiers, topics and property names are
  only compared. Two operations look at the characters: \<open>trim\<close>, which strips the white
  space and line terminators of ECMAScript, and the object spread of a string, which
  indexes its UTF-16 code units.
\<close>

fun utf8_decode :: "string \<Rightarrow> nat list" where
  "utf8_decode [] = []"
| "utf8_decode (c # cs) =
     (if of_char c < (128 :: nat) then of_char c # utf8_decode cs
      else if of_char c < (224 :: nat) then
        (case cs of
           d # r \<Rightarrow> ((of_char c mod 32) * 64 + of_char d mod 64) # utf8_decode r
         | [] \<Rightarrow> [of_char c])
      else if of_char c < (240 :: nat) then
        (case cs of
           d # e # r \<Rightarrow>
             ((of_char c mod 16) * 4096 + (of_char d mod 64) * 64 + of_char e mod 64) # utf8_decode r
         | rest \<Rightarrow> [of_char c])
      else
        (case cs of
           d # e # f # r \<Rightarrow>
             ((of_char c mod 8) * 262144 + (of_char d mod 64) * 4096 + (of_char e mod 64) * 64
                + of_char f mod 64) # utf8_decode r
         | rest \<Rightarrow> [of_char c]))"

definition utf16_units :: "nat \<Rightarrow> nat list" where
  "utf16_units cp =
     (if cp < 65536 then [cp]
      else [55296 + (cp - 65536) div 1024, 56320 + (cp - 65536) mod 1024])"

definition utf8_encode :: "nat \<Rightarrow> string" where
  "utf8_encode u =
     (if u < 128 then [char_of u]
      else if u < 2048 then [char_of (192 + u div 64), char_of (128 + u mod 64)]
      else [char_of (224 + u div 4096), char_of (128 + (u div 64) mod 64), char_of (128 + u mod 64)])"

text \<open>
  The code points that \<open>trim\<close> strips: tab, line feed, vertical tab, form feed, carriage
  return, space, U+00A0, U+1680, U+2000 to U+200A, U+2028, U+2029, U+202F, U+205F, U+3000
  and U+FEFF.
\<close>

definition js_whitespace :: "nat \<Rightarrow> bool" where
  "js_whitespace cp =
     (cp \<in> set [9, 10, 11, 12, 13, 32, 160, 5760, 8232, 8233, 8239, 8287, 12288, 65279]
      \<or> (8192 \<le> cp \<and> cp \<le> 8202))"

fun decimal :: "nat \<Rightarrow> string" where
  "decimal n =
     (if n < 10 then [char_of (48 + n)] else decimal (n div 10) @ [char_of (48 + n mod 10)])"

subsection \<open>Conversion to a string\<close>

text \<open>
  \<open>String(v)\<close>. A number, a boolean and \<open>null\<close> print as a non-empty word. An object
  prints as \<open>[object Object]\<close>, unless it has an own property \<open>toString\<close>: a parsed value
  is not callable, the inherited \<open>valueOf\<close> returns the object itself, and the conversion
  throws a \<open>TypeError\<close>. An array prints its elements joined by commas, \<open>null\<close>
  elements printing as nothing, and throws when an element does. \<open>blank_String v\<close> is
  \<open>String(v).trim() === ''\<close> for a value whose conversion does not throw.
\<close>

fun to_string_throws :: "json \<Rightarrow> bool" where
  "to_string_throws (JObj kvs) = (map_of kvs ''toString'' \<noteq> None)"
| "to_string_throws (JArr xs) = list_ex to_string_throws xs"
| "to_string_throws v = False"

fun blank_String :: "json \<Rightarrow> bool" where
  "blank_String (JStr s) = list_all js_whitespace (utf8_decode s)"
| "blank_String (JArr []) = True"
| "blank_String (JArr [x]) = (x = JNull \<or> blank_String x)"
| "blank_String v = False"

subsection \<open>Property reads\<close>

text \<open>
  The validators read properties of a payload that is an object or an array; every other
  payload is refused before. \<open>data[field]\<close> walks the prototype chain. An object yields
  its own property; otherwise \<open>__proto__\<close> yields \<open>Object.prototype\<close> and the name of a
  method of \<open>Object.prototype\<close> yields that function. An array yields the element under
  a decimal index, its \<open>length\<close>, \<open>Array.prototype\<close> under \<open>__proto__\<close>, and a
  function under the name of a method of \<open>Array.prototype\<close> or \<open>Object.prototype\<close>.
  Every other name is \<open>undefined\<close>. The methods of \<open>Object.prototype\<close> are those of
  ECMAScript with its Annex B; the methods of \<open>Array.prototype\<close> vary with the version
  of the runtime and are a field of the server state.
\<close>

datatype js_object = Object "(string \<times> json) list" | Array "json list"

datatype js_value = Undefined | Own json | Inherited_function | Object_prototype | Array_prototype

definition object_prototype_names :: "string list" where
  "object_prototype_names =
     [''constructor'', ''hasOwnProperty'', ''isPrototypeOf'', ''propertyIsEnumerable'',
      ''toLocaleString'', ''toString'', ''valueOf'', ''__defineGetter__'', ''__defineSetter__'',
      ''__lookupGetter__'', ''__lookupSetter__'']"

definition array_index :: "json list \<Rightarrow> string \<Rightarrow> nat option" where
  "array_index xs field = find (\<lambda>i. decimal i = field) [0..<length xs]"

fun js_get :: "string list \<Rightarrow> js_object \<Rightarrow> string \<Rightarrow> js_value" where
  "js_get array_names (Object kvs) field =
     (case map_of kvs field of
        Some v \<Rightarrow> Own v
      | None \<Rightarrow>
          if field = ''__proto__'' then Object_prototype
          else if field \<in> set object_prototype_names then Inherited_function
          else Undefined)"
| "js_get array_names (Array xs) field =
     (case array_index xs field of
        Some i \<Rightarrow> Own (xs ! i)
      | None \<Rightarrow>
          if field = ''length'' then Own (JNum (int (length xs)))
          else if field = ''__proto__'' then Array_prototype
          else if field \<in> set array_names \<or> field \<in> set object_prototype_names
          then Inherited_function
          else Undefined)"

text \<open>
  \<open>data.hasOwnProperty(field)\<close>. An object with an own property \<open>hasOwnProperty\<close>
  shadows the method with a value that is not callable: the call throws a \<open>TypeError\<close>
  (\<open>None\<close>). Otherwise the method of \<open>Object.prototype\<close> tells whether the property is
  an own one.
\<close>

fun hasOwnProperty :: "js_object \<Rightarrow> string \<Rightarrow> bool option" where
  "hasOwnProperty (Object kvs) field =
     (if map_of kvs ''hasOwnProperty'' \<noteq> None then None else Some (map_of kvs field \<noteq> None))"
| "hasOwnProperty (Array xs) field = Some (array_index xs field \<noteq> None \<or> field = ''length'')"

subsection \<open>Configuration, connections, messages\<close>

record config =
  enableAuthentication :: bool
  authToken :: string
  dbTableName :: string
  requiredFields :: "string list"
  fieldsToEncrypt :: "string list"
  enableHeartbeat :: bool
  heartbeatInterval :: int
  maxConnections :: int
  enableDataValidation :: bool
  enableRequestResponse :: bool
  enablePubSub :: bool
  enableRPC :: bool
  enableStreaming :: bool
  requestTimeout :: int
  enableBinaryData :: bool
  clientTypes :: "string list"

text \<open>A socket object is identified by a number; \<open>readyState\<close> is the state the transport reports.\<close>

type_synonym ws = nat

datatype readyState = CONNECTING | OPEN | CLOSING | CLOSED

text \<open>
  The object \<open>clientData\<close> built in \<open>_handleNewConnection\<close>. The fields carry the prefix
  \<open>cd_\<close> because \<open>id\<close> and \<open>subscriptions\<close> are taken. Times are milliseconds.
\<close>

record client_data =
  cd_id :: string
  cd_ip :: string
  cd_userAgent :: string
  cd_connectedAt :: int
  cd_lastHeartbeat :: int
  cd_isAuthenticated :: bool
  cd_dataReceived :: nat
  cd_lastDataTime :: "int option"
  cd_clientType :: string
  cd_subscriptions :: "string list"
  cd_capabilities :: "string list"

record request =
  remoteAddress :: string
  user_agent :: "string option"

text \<open>
  An inbound message after \<open>JSON.parse\<close>, by the \<open>type\<close> the dispatcher switches on, with
  the fields its handler reads. Identifiers and topics are strings. A \<open>data\<close> or
  \<open>sensor_data\<close> message carries the whole message object, which its handler falls back on.
\<close>

datatype message =
    Handshake "string option" "string list option"
  | Auth "string option"
  | Sensor_data "(string \<times> json) list"
  | Data "(string \<times> json) list"
  | Request string string json
  | Response string bool json "string option"
  | Subscribe string
  | Unsubscribe string
  | Publish string json
  | Rpc_call string string json
  | Stream_start string string
  | Stream_data string json "int option"
  | Stream_end string
  | Heartbeat
  | Ping
  | Unknown_type string

datatype parsed = Parse_error | Parsed_null | Parsed message

record rawData =
  isBuffer :: bool
  parse :: parsed

text \<open>The messages the server sends, by their \<open>type\<close>.\<close>

datatype out_msg =
    Welcome string bool
  | Error_msg string
  | Handshake_response string
  | Auth_response bool string
  | Data_response bool "string option" "json option" "json option"
  | Request_msg string string json
  | Response_msg string bool json "string option"
  | Subscribe_response string
  | Unsubscribe_response string
  | Publish_msg string json
  | Publish_response string
  | Rpc_response string bool "json option" "string option"
  | Stream_start_response string
  | Stream_start_msg string string
  | Stream_data_msg string json "int option"
  | Stream_end_msg string
  | Stream_end_response string
  | Heartbeat_response
  | Pong
  | Data_msg json

text \<open>
  The calls the handler makes on its collaborators, in the order it makes them: a frame
  handed to \<open>ws.send\<close>, \<open>ws.close(code, reason)\<close>, \<open>ws.ping()\<close>, \<open>server.close()\<close>,
  \<open>db.postData(table, record)\<close>, an event emitted to the application (its name and the
  identifiers it carries), an RPC handler invoked (method and client), and a promise
  resolved or rejected through the continuations kept in a pending request.
\<close>

datatype effect =
    Send ws out_msg
  | Close ws nat string
  | Ping_frame ws
  | Server_close
  | Db_post string json
  | Emit string "string list"
  | Invoke string string
  | Resolve nat json
  | Reject nat string

subsection \<open>The server state\<close>

record pending_request =
  pr_promise :: nat
  pr_timeout :: nat

record stream =
  st_clientId :: string
  st_ws :: ws
  st_streamType :: string
  st_startedAt :: int

datatype timer_callback =
    Request_timeout string nat
  | Auth_failed_close ws

datatype rpc_result = Returns json | Throws string | Returns_promise

record db =
  encrypt :: "(json \<Rightarrow> string option) option"

text \<open>
  \<open>clients\<close> holds the keys of the map \<open>this.clients\<close> in insertion order; the value of a
  key is the \<open>clientData\<close> object of that socket, which the socket's event callbacks also
  hold. \<open>clientData\<close> is the store of these objects, so a write through either reference
  is seen through the other. \<open>listeners\<close> are the sockets whose callbacks are installed,
  \<open>heartbeatTimers\<close> the sockets whose interval timer is armed, \<open>timers\<close> the armed
  one-shot timers (handle, due time, callback).
\<close>

record server =
  config :: config
  db :: "db option"
  hasServer :: bool
  clients :: "ws list"
  clientData :: "ws \<Rightarrow> client_data"
  isRunning :: bool
  connectionCount :: int
  pendingRequests :: "(string \<times> pending_request) list"
  subscriptions :: "(string \<times> ws list) list"
  rpcMethods :: "(string \<times> (json \<Rightarrow> client_data \<Rightarrow> rpc_result)) list"
  streams :: "(string \<times> stream) list"
  readyState :: "ws \<Rightarrow> readyState"
  listeners :: "ws list"
  heartbeatTimers :: "ws list"
  timers :: "(nat \<times> int \<times> timer_callback) list"
  nextTimer :: nat
  nextPromise :: nat
  arrayMethods :: "string list"
  effects :: "effect list"

text \<open>A JavaScript \<open>Set\<close> as a list without repetition, in insertion order.\<close>

definition set_add :: "'a \<Rightarrow> 'a list \<Rightarrow> 'a list" where
  "set_add x xs = (if x \<in> set xs then xs else xs @ [x])"

definition set_delete :: "'a \<Rightarrow> 'a list \<Rightarrow> 'a list" where
  "set_delete x xs = filter (\<lambda>y. y \<noteq> x) xs"

definition emit :: "server \<Rightarrow> string \<Rightarrow> string list \<Rightarrow> server" where
  "emit s name args = s\<lparr>effects := effects s @ [Emit name args]\<rparr>"

text \<open>
  \<open>_sendToClient\<close>: the frame is handed to the socket only when the socket is open. (An
  exception of \<open>ws.send\<close> would be caught and logged there; an open socket takes the
  frame.)
\<close>

definition sendToClient :: "server \<Rightarrow> ws \<Rightarrow> out_msg \<Rightarrow> server" where
  "sendToClient s w m =
     (if readyState s w = OPEN then s\<lparr>effects := effects s @ [Send w m]\<rparr> else s)"

text \<open>\<open>ws.close(code, reason)\<close>: an open socket starts its closing handshake.\<close>

definition ws_close :: "server \<Rightarrow> ws \<Rightarrow> nat \<Rightarrow> string \<Rightarrow> server" where
  "ws_close s w code reason =
     s\<lparr>readyState := (readyState s)(w := (if readyState s w = OPEN then CLOSING else readyState s w)),
       effects := effects s @ [Close w code reason]\<rparr>"

definition setTimeout :: "server \<Rightarrow> int \<Rightarrow> timer_callback \<Rightarrow> nat \<times> server" where
  "setTimeout s due cb =
     (nextTimer s, s\<lparr>timers := timers s @ [(nextTimer s, due, cb)], nextTimer := Suc (nextTimer s)\<rparr>)"

definition clearTimeout :: "server \<Rightarrow> nat \<Rightarrow> server" where
  "clearTimeout s h = s\<lparr>timers := filter (\<lambda>t. fst t \<noteq> h) (timers s)\<rparr>"

definition clearInterval :: "server \<Rightarrow> ws \<Rightarrow> server" where
  "clearInterval s w = s\<lparr>heartbeatTimers := set_delete w (heartbeatTimers s)\<rparr>"

text \<open>\<open>this.clients.get(ws)\<close>.\<close>

definition clients_get :: "server \<Rightarrow> ws \<Rightarrow> client_data option" where
  "clients_get s w = (if w \<in> set (clients s) then Some (clientData s w) else None)"

section \<open>Connection life cycle\<close>

text \<open>
  \<open>_startClientHeartbeat\<close> arms the interval timer of the socket; \<open>heartbeat_tick\<close> is the
  callback it runs every \<open>heartbeatInterval\<close> milliseconds, at time \<open>now\<close>.
\<close>

definition startClientHeartbeat :: "server \<Rightarrow> ws \<Rightarrow> server" where
  "startClientHeartbeat s w = s\<lparr>heartbeatTimers := set_add w (heartbeatTimers s)\<rparr>"

definition heartbeat_tick :: "server \<Rightarrow> ws \<Rightarrow> int \<Rightarrow> server" where
  "heartbeat_tick s w now =
     (if readyState s w = OPEN then
        (let timeSinceLastHeartbeat = now - cd_lastHeartbeat (clientData s w) in
         if timeSinceLastHeartbeat > heartbeatInterval (config s) * 2
         then clearInterval (ws_close s w 1000 ''Heartbeat timeout'') w
         else s\<lparr>effects := effects s @ [Ping_frame w]\<rparr>)
      else clearInterval s w)"

definition setupClientEventHandlers :: "server \<Rightarrow> ws \<Rightarrow> server" where
  "setupClientEventHandlers s w = s\<lparr>listeners := set_add w (listeners s)\<rparr>"

text \<open>
  \<open>_handleNewConnection\<close>. \<open>clientId\<close> is the identifier \<open>_generateClientId\<close> returns
  and \<open>now\<close> the time of \<open>new Date()\<close>.
\<close>

definition handleNewConnection :: "server \<Rightarrow> ws \<Rightarrow> request \<Rightarrow> string \<Rightarrow> int \<Rightarrow> server" where
  "handleNewConnection s w req clientId now =
     (if connectionCount s \<ge> maxConnections (config s)
      then ws_close s w 1013 ''Server overloaded''
      else
        (let cd = \<lparr>cd_id = clientId,
                   cd_ip = remoteAddress req,
                   cd_userAgent = (case user_agent req of
                                     None \<Rightarrow> ''Unknown''
                                   | Some u \<Rightarrow> if u = [] then ''Unknown'' else u),
                   cd_connectedAt = now,
                   cd_lastHeartbeat = now,
                   cd_isAuthenticated = (\<not> enableAuthentication (config s)),
                   cd_dataReceived = 0,
                   cd_lastDataTime = None,
                   cd_clientType = ''unknown'',
                   cd_subscriptions = [],
                   cd_capabilities = []\<rparr>;
             s1 = s\<lparr>clientData := (clientData s)(w := cd),
                    clients := set_add w (clients s),
                    connectionCount := connectionCount s + 1\<rparr>;
             s2 = setupClientEventHandlers s1 w;
             s3 = (if enableHeartbeat (config s) then startClientHeartbeat s2 w else s2);
             s4 = sendToClient s3 w (Welcome clientId (enableAuthentication (config s)))
         in emit s4 ''client-connected'' [clientId]))"

text \<open>
  \<open>_handleClientDisconnection\<close>, the callback of the socket's \<open>close\<close> event. The first loop
  runs over the topics recorded in the connection's own \<open>subscriptions\<close> set, the second
  over the entries of \<open>this.streams\<close> (deleting the entry under the cursor of a \<open>Map\<close>
  iteration is allowed and the iteration goes on to the next entry).
\<close>

definition unsubscribe_topic :: "ws \<Rightarrow> string \<Rightarrow> (string \<times> ws list) list \<Rightarrow> (string \<times> ws list) list" where
  "unsubscribe_topic w topic subs =
     (case map_of subs topic of
        None \<Rightarrow> subs
      | Some subscribers \<Rightarrow>
          (if set_delete w subscribers = []
           then AList.delete topic subs
           else AList.update topic (set_delete w subscribers) subs))"

fun cleanup_streams :: "string \<Rightarrow> (string \<times> stream) list \<Rightarrow> server \<Rightarrow> server" where
  "cleanup_streams cid [] s = s"
| "cleanup_streams cid ((streamId, st) # rest) s =
     (if st_clientId st = cid
      then cleanup_streams cid rest
             (emit (s\<lparr>streams := AList.delete streamId (streams s)\<rparr>) ''stream-ended'' [cid, streamId])
      else cleanup_streams cid rest s)"

definition handleClientDisconnection :: "server \<Rightarrow> ws \<Rightarrow> server" where
  "handleClientDisconnection s w =
     (let cd = clientData s w;
          s1 = s\<lparr>subscriptions := fold (unsubscribe_topic w) (cd_subscriptions cd) (subscriptions s)\<rparr>;
          s2 = cleanup_streams (cd_id cd) (streams s1) s1;
          s3 = s2\<lparr>clients := set_delete w (clients s2),
                  connectionCount := connectionCount s2 - 1\<rparr>
      in emit s3 ''client-disconnected'' [cd_id cd])"

section \<open>Message handlers\<close>

definition handleHandshake :: "server \<Rightarrow> ws \<Rightarrow> string option \<Rightarrow> string list option \<Rightarrow> server" where
  "handleHandshake s w clientType capabilities =
     (let cd = clientData s w;
          cd1 = (case clientType of
                   None \<Rightarrow> cd
                 | Some t \<Rightarrow> if t \<noteq> [] \<and> t \<in> set (clientTypes (config s))
                             then cd\<lparr>cd_clientType := t\<rparr> else cd);
          cd2 = (case capabilities of
                   None \<Rightarrow> cd1
                 | Some caps \<Rightarrow> cd1\<lparr>cd_capabilities := fold set_add caps (cd_capabilities cd1)\<rparr>);
          s1 = s\<lparr>clientData := (clientData s)(w := cd2)\<rparr>;
          s2 = sendToClient s1 w (Handshake_response (cd_id cd))
      in emit s2 ''client-handshake'' [cd_id cd])"

text \<open>
  \<open>_handleAuthentication\<close>. After a wrong token the socket is closed by a timer one second
  later; \<open>auth_failed_close\<close> is that timer's callback.
\<close>

definition handleAuthentication :: "server \<Rightarrow> ws \<Rightarrow> string option \<Rightarrow> int \<Rightarrow> server" where
  "handleAuthentication s w token now =
     (if \<not> enableAuthentication (config s)
      then sendToClient s w (Auth_response True ''Authentication not required'')
      else if token = Some (authToken (config s))
      then
        (let cd = clientData s w;
             s1 = s\<lparr>clientData := (clientData s)(w := cd\<lparr>cd_isAuthenticated := True\<rparr>)\<rparr>;
             s2 = sendToClient s1 w (Auth_response True ''Authentication successful'')
         in emit s2 ''client-authenticated'' [cd_id cd])
      else
        (let s1 = sendToClient s w (Auth_response False ''Invalid authentication token'')
         in snd (setTimeout s1 (now + 1000) (Auth_failed_close w))))"

definition auth_failed_close :: "server \<Rightarrow> ws \<Rightarrow> server" where
  "auth_failed_close s w =
     (if readyState s w = OPEN then ws_close s w 1008 ''Authentication failed'' else s)"

subsection \<open>Ingest: validation and persistence\<close>

text \<open>
  A validator answers \<open>true\<close> or \<open>false\<close>, or throws a \<open>TypeError\<close> on the way.
  \<open>_validateSensorData\<close> walks the required fields in their order and returns at the
  first one that fails.
\<close>

datatype verdict = Valid | Invalid | Type_error

fun check_required :: "(string \<Rightarrow> js_value) \<Rightarrow> string list \<Rightarrow> verdict" where
  "check_required get [] = Valid"
| "check_required get (field # rest) =
     (case get field of
        Undefined \<Rightarrow> Invalid
      | Own v \<Rightarrow>
          if v = JNull then Invalid
          else if to_string_throws v then Type_error
          else if blank_String v then Invalid
          else check_required get rest
      | Inherited_function \<Rightarrow> check_required get rest
      | Object_prototype \<Rightarrow> check_required get rest
      | Array_prototype \<Rightarrow> Invalid)"

definition validateSensorData :: "string list \<Rightarrow> config \<Rightarrow> json \<Rightarrow> verdict" where
  "validateSensorData array_names cfg data =
     (if \<not> truthy data \<or> \<not> typeof_object data then Invalid
      else (case data of
              JObj kvs \<Rightarrow> check_required (js_get array_names (Object kvs)) (requiredFields cfg)
            | JArr xs \<Rightarrow> check_required (js_get array_names (Array xs)) (requiredFields cfg)
            | other \<Rightarrow> Invalid))"

definition validateApplicationData :: "js_object \<Rightarrow> verdict" where
  "validateApplicationData data =
     (case hasOwnProperty data ''payload'' of
        None \<Rightarrow> Type_error
      | Some True \<Rightarrow> Valid
      | Some False \<Rightarrow>
          (case hasOwnProperty data ''data'' of
             None \<Rightarrow> Type_error
           | Some True \<Rightarrow> Valid
           | Some False \<Rightarrow> Invalid))"

definition validateServiceData :: "js_object \<Rightarrow> verdict" where
  "validateServiceData data =
     (case hasOwnProperty data ''service'' of
        None \<Rightarrow> Type_error
      | Some False \<Rightarrow> Invalid
      | Some True \<Rightarrow>
          (case hasOwnProperty data ''operation'' of
             None \<Rightarrow> Type_error
           | Some False \<Rightarrow> Invalid
           | Some True \<Rightarrow> Valid))"

text \<open>
  \<open>_validateData\<close>. Past its first test the payload is an object or an array; the last
  case of the distinction below is that test once more.
\<close>

definition validateData :: "string list \<Rightarrow> config \<Rightarrow> json \<Rightarrow> json \<Rightarrow> verdict" where
  "validateData array_names cfg data dataType =
     (if \<not> truthy data \<or> \<not> typeof_object data then Invalid
      else if dataType = JStr ''sensor'' then validateSensorData array_names cfg data
      else if dataType = JStr ''application'' then
        (case data of
           JObj kvs \<Rightarrow> validateApplicationData (Object kvs)
         | JArr xs \<Rightarrow> validateApplicationData (Array xs)
         | other \<Rightarrow> Invalid)
      else if dataType = JStr ''service'' then
        (case data of
           JObj kvs \<Rightarrow> validateServiceData (Object kvs)
         | JArr xs \<Rightarrow> validateServiceData (Array xs)
         | other \<Rightarrow> Invalid)
      else validateSensorData array_names cfg data)"

text \<open>
  The object spread \<open>{...data}\<close>: the own properties of an object, the elements of an array
  or the UTF-16 code units of a string under their decimal indices, nothing for another
  primitive.
\<close>

fun spread :: "json \<Rightarrow> (string \<times> json) list" where
  "spread (JObj kvs) = kvs"
| "spread (JArr xs) = zip (map decimal [0..<length xs]) xs"
| "spread (JStr str) =
     (let units = concat (map utf16_units (utf8_decode str))
      in zip (map decimal [0..<length units]) (map (\<lambda>u. JStr (utf8_encode u)) units))"
| "spread v = []"

text \<open>
  \<open>_saveToDatabase\<close> is asynchronous. Up to its \<open>await\<close> it encrypts the configured fields
  and calls \<open>db.postData\<close>; \<open>saveToDatabase_settled\<close> is the rest of its body, run when the
  store has answered with an insert identifier (\<open>Inr\<close>) or has failed (\<open>Inl\<close>), and also
  its \<open>catch\<close> block. The argument of the \<open>encrypt\<close> capability is the value whose string
  form is encrypted; \<open>None\<close> is an encryption that throws. A field whose conversion or
  encryption throws stays as it was. The loop over the fields asks
  \<open>dataToInsert.hasOwnProperty(field)\<close>; when the record shadows that method, the call
  throws outside the inner \<open>try\<close>, and the \<open>catch\<close> block answers before any call of the
  store.
\<close>

definition saveToDatabase_settled :: "server \<Rightarrow> ws \<Rightarrow> json option \<Rightarrow> string + json \<Rightarrow> server" where
  "saveToDatabase_settled s w requestId outcome =
     (case outcome of
        Inr insertId \<Rightarrow>
          emit (sendToClient s w (Data_response True None (Some insertId) requestId))
            ''database-insert'' [cd_id (clientData s w)]
      | Inl err \<Rightarrow>
          emit (sendToClient s w (Data_response False (Some ''Database error'') None requestId))
            ''database-error'' [cd_id (clientData s w)])"

definition encrypt_field :: "(json \<Rightarrow> string option) \<Rightarrow> string \<Rightarrow> (string \<times> json) list \<Rightarrow> (string \<times> json) list" where
  "encrypt_field enc field dataToInsert =
     (case map_of dataToInsert field of
        None \<Rightarrow> dataToInsert
      | Some v \<Rightarrow>
          (if v \<noteq> JNull \<and> \<not> to_string_throws v
           then (case enc v of
                   Some c \<Rightarrow> AList.update field (JStr c) dataToInsert
                 | None \<Rightarrow> dataToInsert)
           else dataToInsert))"

fun encrypt_fields :: "(json \<Rightarrow> string option) \<Rightarrow> string list \<Rightarrow> (string \<times> json) list \<Rightarrow> (string \<times> json) list option" where
  "encrypt_fields enc [] dataToInsert = Some dataToInsert"
| "encrypt_fields enc (field # rest) dataToInsert =
     (case hasOwnProperty (Object dataToInsert) field of
        None \<Rightarrow> None
      | Some False \<Rightarrow> encrypt_fields enc rest dataToInsert
      | Some True \<Rightarrow> encrypt_fields enc rest (encrypt_field enc field dataToInsert))"

definition saveToDatabase :: "server \<Rightarrow> db \<Rightarrow> (string \<times> json) list \<Rightarrow> ws \<Rightarrow> json option \<Rightarrow> server" where
  "saveToDatabase s d data w requestId =
     (case (case encrypt d of
              None \<Rightarrow> Some data
            | Some enc \<Rightarrow> encrypt_fields enc (fieldsToEncrypt (config s)) data) of
        None \<Rightarrow> saveToDatabase_settled s w requestId (Inl ''TypeError'')
      | Some dataToInsert \<Rightarrow>
          s\<lparr>effects := effects s @ [Db_post (dbTableName (config s)) (JObj dataToInsert)]\<rparr>)"

text \<open>
  \<open>_handleDataMessage\<close>. \<open>m\<close> is the message object. The stored \<open>received_at\<close> is the
  time \<open>now\<close> (the source stores its ISO string). The validation runs inside the \<open>try\<close>
  block of the handler: a validator that throws is answered by the \<open>catch\<close> block.
\<close>

definition first_truthy :: "json option \<Rightarrow> json option" where
  "first_truthy v = (case v of None \<Rightarrow> None | Some x \<Rightarrow> if truthy x then Some x else None)"

text \<open>\<open>message.data || message.payload || message\<close> and \<open>message.dataType || 'general'\<close>.\<close>

definition data_of :: "(string \<times> json) list \<Rightarrow> json" where
  "data_of m =
     (case first_truthy (map_of m ''data'') of
        Some x \<Rightarrow> x
      | None \<Rightarrow> (case first_truthy (map_of m ''payload'') of
                    Some x \<Rightarrow> x
                  | None \<Rightarrow> JObj m))"

definition dataType_of :: "(string \<times> json) list \<Rightarrow> json" where
  "dataType_of m =
     (case first_truthy (map_of m ''dataType'') of
        Some x \<Rightarrow> x
      | None \<Rightarrow> JStr ''general'')"

definition handleDataMessage :: "server \<Rightarrow> ws \<Rightarrow> (string \<times> json) list \<Rightarrow> int \<Rightarrow> server" where
  "handleDataMessage s w m now =
     (let cd = clientData s w in
      if enableAuthentication (config s) \<and> \<not> cd_isAuthenticated cd
      then sendToClient s w (Error_msg ''Authentication required'')
      else
        (let data = data_of m;
             dataType = dataType_of m;
             requestId = map_of m ''requestId''
         in
         case (if enableDataValidation (config s)
               then validateData (arrayMethods s) (config s) data dataType
               else Valid) of
           Type_error \<Rightarrow>
             sendToClient s w (Data_response False (Some ''Error processing data'') None requestId)
         | Invalid \<Rightarrow>
             sendToClient s w (Data_response False (Some ''Data validation failed'') None requestId)
         | Valid \<Rightarrow>
           (let dataToSave =
                  AList.update ''received_at'' (JNum now)
                   (AList.update ''data_type'' dataType
                     (AList.update ''client_type'' (JStr (cd_clientType cd))
                       (AList.update ''client_ip'' (JStr (cd_ip cd))
                         (AList.update ''client_id'' (JStr (cd_id cd)) (spread data)))));
                s1 = (case db s of
                        Some d \<Rightarrow>
                          (if dbTableName (config s) \<noteq> []
                           then saveToDatabase s d dataToSave w requestId
                           else sendToClient s w (Data_response True None None requestId))
                      | None \<Rightarrow> sendToClient s w (Data_response True None None requestId))
            in emit s1 ''data-received'' [cd_id cd])))"

definition handleSensorData :: "server \<Rightarrow> ws \<Rightarrow> (string \<times> json) list \<Rightarrow> int \<Rightarrow> server" where
  "handleSensorData s w m now =
     handleDataMessage s w
       (AList.update ''dataType'' (JStr ''sensor'') (AList.update ''type'' (JStr ''data'') m)) now"

subsection \<open>Request and response\<close>

text \<open>
  \<open>_handleRequest\<close> hands the request to the application with the event \<open>request\<close>;
  \<open>respond\<close> is the callback the event carries.
\<close>

definition handleRequest :: "server \<Rightarrow> ws \<Rightarrow> string \<Rightarrow> string \<Rightarrow> json \<Rightarrow> server" where
  "handleRequest s w requestId endpoint data =
     (if \<not> enableRequestResponse (config s)
      then sendToClient s w (Error_msg ''Request-response not enabled'')
      else emit s ''request'' [cd_id (clientData s w), requestId, endpoint])"

definition respond :: "server \<Rightarrow> ws \<Rightarrow> string \<Rightarrow> json \<Rightarrow> string option \<Rightarrow> server" where
  "respond s w requestId responseData err =
     sendToClient s w (Response_msg requestId (err = None) responseData err)"

definition handleResponse :: "server \<Rightarrow> ws \<Rightarrow> string \<Rightarrow> bool \<Rightarrow> json \<Rightarrow> string option \<Rightarrow> server" where
  "handleResponse s w requestId success data err =
     (case map_of (pendingRequests s) requestId of
        None \<Rightarrow> s
      | Some req \<Rightarrow>
          (let s1 = clearTimeout s (pr_timeout req);
               s2 = s1\<lparr>pendingRequests := AList.delete requestId (pendingRequests s1)\<rparr>
           in if success
              then s2\<lparr>effects := effects s2 @ [Resolve (pr_promise req) data]\<rparr>
              else s2\<lparr>effects := effects s2 @
                     [Reject (pr_promise req)
                        (case err of
                           None \<Rightarrow> ''Request failed''
                         | Some e \<Rightarrow> if e = [] then ''Request failed'' else e)]\<rparr>))"

subsection \<open>Publish and subscribe\<close>

definition handleSubscribe :: "server \<Rightarrow> ws \<Rightarrow> string \<Rightarrow> server" where
  "handleSubscribe s w topic =
     (if \<not> enablePubSub (config s)
      then sendToClient s w (Error_msg ''Pub-Sub not enabled'')
      else
        (let cd = clientData s w;
             subs1 = (if map_of (subscriptions s) topic = None
                      then AList.update topic [] (subscriptions s)
                      else subscriptions s);
             subscribers = (case map_of subs1 topic of None \<Rightarrow> [] | Some ws \<Rightarrow> ws);
             s1 = s\<lparr>subscriptions := AList.update topic (set_add w subscribers) subs1,
                    clientData := (clientData s)
                      (w := cd\<lparr>cd_subscriptions := set_add topic (cd_subscriptions cd)\<rparr>)\<rparr>;
             s2 = sendToClient s1 w (Subscribe_response topic)
         in emit s2 ''client-subscribed'' [cd_id cd, topic]))"

definition handleUnsubscribe :: "server \<Rightarrow> ws \<Rightarrow> string \<Rightarrow> server" where
  "handleUnsubscribe s w topic =
     (let cd = clientData s w;
          s1 = s\<lparr>subscriptions := unsubscribe_topic w topic (subscriptions s),
                 clientData := (clientData s)
                   (w := cd\<lparr>cd_subscriptions := set_delete topic (cd_subscriptions cd)\<rparr>)\<rparr>;
          s2 = sendToClient s1 w (Unsubscribe_response topic)
      in emit s2 ''client-unsubscribed'' [cd_id cd, topic])"

text \<open>
  \<open>publish(topic, data, excludeClientId)\<close> returns the number of frames it handed out.
  \<open>publish_forEach\<close> is the body of \<open>subscribers.forEach\<close> with the counter.
\<close>

fun publish_forEach :: "string \<Rightarrow> json \<Rightarrow> string option \<Rightarrow> ws list \<Rightarrow> server \<times> nat \<Rightarrow> server \<times> nat" where
  "publish_forEach topic data excludeClientId [] (s, publishCount) = (s, publishCount)"
| "publish_forEach topic data excludeClientId (w # rest) (s, publishCount) =
     (case clients_get s w of
        None \<Rightarrow> publish_forEach topic data excludeClientId rest (s, publishCount)
      | Some cd \<Rightarrow>
          (if Some (cd_id cd) \<noteq> excludeClientId \<and> readyState s w = OPEN
           then publish_forEach topic data excludeClientId rest
                  (sendToClient s w (Publish_msg topic data), publishCount + 1)
           else publish_forEach topic data excludeClientId rest (s, publishCount)))"

definition publish :: "server \<Rightarrow> string \<Rightarrow> json \<Rightarrow> string option \<Rightarrow> server \<times> nat" where
  "publish s topic data excludeClientId =
     (case map_of (subscriptions s) topic of
        None \<Rightarrow> (s, 0)
      | Some subscribers \<Rightarrow> publish_forEach topic data excludeClientId subscribers (s, 0))"

definition handlePublish :: "server \<Rightarrow> ws \<Rightarrow> string \<Rightarrow> json \<Rightarrow> server" where
  "handlePublish s w topic data =
     (if \<not> enablePubSub (config s)
      then sendToClient s w (Error_msg ''Pub-Sub not enabled'')
      else sendToClient (fst (publish s topic data (Some (cd_id (clientData s w))))) w
             (Publish_response topic))"

subsection \<open>Remote procedure calls\<close>

text \<open>
  A registered handler returns a value, throws, or returns a promise; in the last case the
  reply is sent when the promise settles (\<open>rpc_promise_settled\<close>).
\<close>

definition handleRPCCall :: "server \<Rightarrow> ws \<Rightarrow> string \<Rightarrow> string \<Rightarrow> json \<Rightarrow> server" where
  "handleRPCCall s w requestId meth params =
     (if \<not> enableRPC (config s)
      then sendToClient s w (Error_msg ''RPC not enabled'')
      else
        (case map_of (rpcMethods s) meth of
           Some rpcMethod \<Rightarrow>
             (let s1 = s\<lparr>effects := effects s @ [Invoke meth (cd_id (clientData s w))]\<rparr>
              in case rpcMethod params (clientData s w) of
                   Returns_promise \<Rightarrow> s1
                 | Returns result \<Rightarrow> sendToClient s1 w (Rpc_response requestId True (Some result) None)
                 | Throws e \<Rightarrow> sendToClient s1 w (Rpc_response requestId False None (Some e)))
         | None \<Rightarrow>
             sendToClient s w
               (Rpc_response requestId False None (Some (''Method '' @ meth @ '' not found'')))))"

definition rpc_promise_settled :: "server \<Rightarrow> ws \<Rightarrow> string \<Rightarrow> string + json \<Rightarrow> server" where
  "rpc_promise_settled s w requestId outcome =
     (case outcome of
        Inr data \<Rightarrow> sendToClient s w (Rpc_response requestId True (Some data) None)
      | Inl e \<Rightarrow> sendToClient s w (Rpc_response requestId False None (Some e)))"

definition registerRPCMethod :: "server \<Rightarrow> string \<Rightarrow> (json \<Rightarrow> client_data \<Rightarrow> rpc_result) \<Rightarrow> server" where
  "registerRPCMethod s methodName handler = s\<lparr>rpcMethods := AList.update methodName handler (rpcMethods s)\<rparr>"

definition unregisterRPCMethod :: "server \<Rightarrow> string \<Rightarrow> server" where
  "unregisterRPCMethod s methodName = s\<lparr>rpcMethods := AList.delete methodName (rpcMethods s)\<rparr>"

subsection \<open>Streams\<close>

definition handleStreamStart :: "server \<Rightarrow> ws \<Rightarrow> string \<Rightarrow> string \<Rightarrow> int \<Rightarrow> server" where
  "handleStreamStart s w streamId streamType now =
     (if \<not> enableStreaming (config s)
      then sendToClient s w (Error_msg ''Streaming not enabled'')
      else
        (let cd = clientData s w;
             s1 = s\<lparr>streams := AList.update streamId
                      \<lparr>st_clientId = cd_id cd, st_ws = w, st_streamType = streamType, st_startedAt = now\<rparr>
                      (streams s)\<rparr>;
             s2 = sendToClient s1 w (Stream_start_response streamId)
         in emit s2 ''stream-started'' [cd_id cd, streamId, streamType]))"

definition handleStreamData :: "server \<Rightarrow> ws \<Rightarrow> string \<Rightarrow> json \<Rightarrow> int option \<Rightarrow> server" where
  "handleStreamData s w streamId data sequenceNumber =
     emit s ''stream-data'' [cd_id (clientData s w), streamId]"

definition handleStreamEnd :: "server \<Rightarrow> ws \<Rightarrow> string \<Rightarrow> server" where
  "handleStreamEnd s w streamId =
     (let s1 = (if map_of (streams s) streamId \<noteq> None
                then emit (s\<lparr>streams := AList.delete streamId (streams s)\<rparr>)
                       ''stream-ended'' [cd_id (clientData s w), streamId]
                else s)
      in sendToClient s1 w (Stream_end_response streamId))"

subsection \<open>Binary frames, heartbeat\<close>

definition handleBinaryMessage :: "server \<Rightarrow> ws \<Rightarrow> server" where
  "handleBinaryMessage s w = emit s ''binary-data'' [cd_id (clientData s w)]"

definition handleHeartbeat :: "server \<Rightarrow> ws \<Rightarrow> int \<Rightarrow> server" where
  "handleHeartbeat s w now =
     sendToClient
       (s\<lparr>clientData := (clientData s)(w := (clientData s w)\<lparr>cd_lastHeartbeat := now\<rparr>)\<rparr>)
       w Heartbeat_response"

text \<open>The callback of the socket's \<open>pong\<close> event.\<close>

definition on_pong :: "server \<Rightarrow> ws \<Rightarrow> int \<Rightarrow> server" where
  "on_pong s w now = s\<lparr>clientData := (clientData s)(w := (clientData s w)\<lparr>cd_lastHeartbeat := now\<rparr>)\<rparr>"

section \<open>The dispatcher\<close>

text \<open>
  \<open>_handleClientMessage\<close>. A frame that does not parse is a binary message when binary
  data is enabled and the frame is a \<open>Buffer\<close>, and an invalid message otherwise. The
  literal \<open>null\<close> parses, is counted, and then fails at \<open>message.type\<close>, which the outer
  \<open>catch\<close> answers.
\<close>

definition count_message :: "server \<Rightarrow> ws \<Rightarrow> int \<Rightarrow> server" where
  "count_message s w now =
     s\<lparr>clientData := (clientData s)
         (w := (clientData s w)\<lparr>cd_lastDataTime := Some now,
                                 cd_dataReceived := cd_dataReceived (clientData s w) + 1\<rparr>)\<rparr>"

fun dispatch :: "server \<Rightarrow> ws \<Rightarrow> message \<Rightarrow> int \<Rightarrow> server" where
  "dispatch s w (Handshake clientType capabilities) now = handleHandshake s w clientType capabilities"
| "dispatch s w (Auth token) now = handleAuthentication s w token now"
| "dispatch s w (Sensor_data m) now = handleSensorData s w m now"
| "dispatch s w (Data m) now = handleDataMessage s w m now"
| "dispatch s w (Request requestId endpoint data) now = handleRequest s w requestId endpoint data"
| "dispatch s w (Response requestId success data err) now = handleResponse s w requestId success data err"
| "dispatch s w (Subscribe topic) now = handleSubscribe s w topic"
| "dispatch s w (Unsubscribe topic) now = handleUnsubscribe s w topic"
| "dispatch s w (Publish topic data) now = handlePublish s w topic data"
| "dispatch s w (Rpc_call requestId meth params) now = handleRPCCall s w requestId meth params"
| "dispatch s w (Stream_start streamId streamType) now = handleStreamStart s w streamId streamType now"
| "dispatch s w (Stream_data streamId data sequenceNumber) now = handleStreamData s w streamId data sequenceNumber"
| "dispatch s w (Stream_end streamId) now = handleStreamEnd s w streamId"
| "dispatch s w Heartbeat now = handleHeartbeat s w now"
| "dispatch s w Ping now = sendToClient s w Pong"
| "dispatch s w (Unknown_type ty) now = sendToClient s w (Error_msg (''Unknown message type: '' @ ty))"

definition handleClientMessage :: "server \<Rightarrow> ws \<Rightarrow> rawData \<Rightarrow> int \<Rightarrow> server" where
  "handleClientMessage s w raw now =
     (case parse raw of
        Parse_error \<Rightarrow>
          (if enableBinaryData (config s) \<and> isBuffer raw
           then handleBinaryMessage s w
           else sendToClient s w (Error_msg ''Invalid message format''))
      | Parsed_null \<Rightarrow> sendToClient (count_message s w now) w (Error_msg ''Invalid message format'')
      | Parsed m \<Rightarrow> dispatch (count_message s w now) w m now)"

section \<open>The public interface\<close>

text \<open>
  \<open>_getClientByIdAndSocket(clientId)\<close> walks the registry and compares each identifier
  with its parameter by \<open>===\<close>. The parameter is \<open>None\<close> when the caller passes no argument
  (\<open>undefined\<close>), which is equal to no identifier, since identifiers are strings.
\<close>

fun getClientByIdAndSocket_loop :: "server \<Rightarrow> string option \<Rightarrow> ws list \<Rightarrow> (ws \<times> client_data) option" where
  "getClientByIdAndSocket_loop s clientId [] = None"
| "getClientByIdAndSocket_loop s clientId (w # rest) =
     (if Some (cd_id (clientData s w)) = clientId
      then Some (w, clientData s w)
      else getClientByIdAndSocket_loop s clientId rest)"

definition getClientByIdAndSocket :: "server \<Rightarrow> string option \<Rightarrow> (ws \<times> client_data) option" where
  "getClientByIdAndSocket s clientId = getClientByIdAndSocket_loop s clientId (clients s)"

datatype error = Client_not_found string

text \<open>
  \<open>sendRequest(clientId, endpoint, data, timeout)\<close>. The method looks the client up with
  the call \<open>this._getClientByIdAndSocket()\<close>, which passes no argument. A rejection of the
  returned promise before the request is issued is the error result \<open>Inl\<close>; otherwise the
  result is the new promise. \<open>sendRequest_executor\<close> is the executor of that promise:
  it arms the timer, stores the pending entry and sends the request. \<open>requestId\<close> is the
  identifier \<open>_generateRequestId\<close> returns. \<open>request_timeout\<close> is the timer's callback.
\<close>

definition sendRequest_executor :: "server \<Rightarrow> ws \<Rightarrow> string \<Rightarrow> string \<Rightarrow> json \<Rightarrow> int \<Rightarrow> int \<Rightarrow> nat \<times> server" where
  "sendRequest_executor s w requestId endpoint data timeout now =
     (let promise = nextPromise s;
          s0 = s\<lparr>nextPromise := Suc promise\<rparr>;
          (timeoutHandle, s1) = setTimeout s0 (now + timeout) (Request_timeout requestId promise);
          s2 = s1\<lparr>pendingRequests :=
                  AList.update requestId \<lparr>pr_promise = promise, pr_timeout = timeoutHandle\<rparr>
                    (pendingRequests s1)\<rparr>
      in (promise, sendToClient s2 w (Request_msg requestId endpoint data)))"

definition request_timeout :: "server \<Rightarrow> string \<Rightarrow> nat \<Rightarrow> server" where
  "request_timeout s requestId promise =
     (let s1 = s\<lparr>pendingRequests := AList.delete requestId (pendingRequests s)\<rparr>
      in s1\<lparr>effects := effects s1 @ [Reject promise ''Request timeout'']\<rparr>)"

definition sendRequest :: "server \<Rightarrow> string \<Rightarrow> string \<Rightarrow> json \<Rightarrow> int \<Rightarrow> string \<Rightarrow> int \<Rightarrow> (error + nat) \<times> server" where
  "sendRequest s clientId endpoint data timeout requestId now =
     (case getClientByIdAndSocket s None of
        None \<Rightarrow> (Inl (Client_not_found clientId), s)
      | Some (w, cd) \<Rightarrow>
          (let (promise, s1) = sendRequest_executor s w requestId endpoint data timeout now
           in (Inr promise, s1)))"

text \<open>The public \<open>sendToClient(clientId, data)\<close>, which looks the client up the same way.\<close>

definition sendToClient_public :: "server \<Rightarrow> string \<Rightarrow> json \<Rightarrow> bool \<times> server" where
  "sendToClient_public s clientId data =
     (case getClientByIdAndSocket s None of
        Some (w, cd) \<Rightarrow> (True, sendToClient s w (Data_msg data))
      | None \<Rightarrow> (False, s))"

text \<open>\<open>startStream\<close> passes the identifier to the lookup.\<close>

definition startStream :: "server \<Rightarrow> string \<Rightarrow> string \<Rightarrow> string \<Rightarrow> bool \<times> server" where
  "startStream s clientId streamId streamType =
     (case getClientByIdAndSocket s (Some clientId) of
        Some (w, cd) \<Rightarrow> (True, sendToClient s w (Stream_start_msg streamId streamType))
      | None \<Rightarrow> (False, s))"

definition sendStreamData :: "server \<Rightarrow> string \<Rightarrow> json \<Rightarrow> int option \<Rightarrow> bool \<times> server" where
  "sendStreamData s streamId data sequenceNumber =
     (case map_of (streams s) streamId of
        Some st \<Rightarrow> (True, sendToClient s (st_ws st) (Stream_data_msg streamId data sequenceNumber))
      | None \<Rightarrow> (False, s))"

definition endStream :: "server \<Rightarrow> string \<Rightarrow> bool \<times> server" where
  "endStream s streamId =
     (case map_of (streams s) streamId of
        Some st \<Rightarrow>
          (let s1 = sendToClient s (st_ws st) (Stream_end_msg streamId)
           in (True, s1\<lparr>streams := AList.delete streamId (streams s1)\<rparr>))
      | None \<Rightarrow> (False, s))"

section \<open>Start and stop\<close>

text \<open>
  \<open>start()\<close>. \<open>listening\<close> tells whether the transport could open the listening
  server; when it could not, the error is announced and thrown again.
\<close>

definition start :: "server \<Rightarrow> bool \<Rightarrow> server" where
  "start s listening =
     (if isRunning s then s
      else if listening
      then emit (s\<lparr>hasServer := True, isRunning := True\<rparr>) ''server-started'' []
      else emit s ''server-error'' [])"

text \<open>
  \<open>stop()\<close>. The handle kept in a pending request is a timer object, so the test
  \<open>request.timeout\<close> holds for every entry.
\<close>

definition close_if_open :: "ws \<Rightarrow> server \<Rightarrow> server" where
  "close_if_open w s = (if readyState s w = OPEN then ws_close s w 1000 ''Server shutdown'' else s)"

definition stop :: "server \<Rightarrow> server" where
  "stop s =
     (if \<not> isRunning s then s
      else
        (let s1 = fold (\<lambda>(requestId, req) acc. clearTimeout acc (pr_timeout req)) (pendingRequests s) s;
             s2 = s1\<lparr>pendingRequests := []\<rparr>;
             s3 = s2\<lparr>streams := []\<rparr>;
             s4 = s3\<lparr>subscriptions := []\<rparr>;
             s5 = fold close_if_open (clients s4) s4;
             s6 = s5\<lparr>clients := []\<rparr>;
             s7 = (if hasServer s6 then s6\<lparr>effects := effects s6 @ [Server_close]\<rparr> else s6);
             s8 = s7\<lparr>isRunning := False, connectionCount := 0\<rparr>
         in emit s8 ''server-stopped'' []))"

section \<open>Events of the environment\<close>

text \<open>
  The transport and the timers call the handler back. A new socket is open when the
  server's \<open>connection\<close> event hands it over. The \<open>message\<close>, \<open>close\<close> and \<open>pong\<close>
  callbacks exist for the sockets that \<open>_setupClientEventHandlers\<close> was called for; a
  socket emits \<open>close\<close> once, when it has reached the state \<open>CLOSED\<close>. A one-shot timer
  runs its callback only while it is armed, and is disarmed by running.
\<close>

definition connection_event :: "server \<Rightarrow> ws \<Rightarrow> request \<Rightarrow> string \<Rightarrow> int \<Rightarrow> server" where
  "connection_event s w req clientId now =
     handleNewConnection (s\<lparr>readyState := (readyState s)(w := OPEN)\<rparr>) w req clientId now"

definition message_event :: "server \<Rightarrow> ws \<Rightarrow> rawData \<Rightarrow> int \<Rightarrow> server" where
  "message_event s w raw now = (if w \<in> set (listeners s) then handleClientMessage s w raw now else s)"

definition close_event :: "server \<Rightarrow> ws \<Rightarrow> server" where
  "close_event s w =
     (if w \<in> set (listeners s)
      then handleClientDisconnection
             (s\<lparr>readyState := (readyState s)(w := CLOSED), listeners := set_delete w (listeners s)\<rparr>) w
      else s)"

definition pong_event :: "server \<Rightarrow> ws \<Rightarrow> int \<Rightarrow> server" where
  "pong_event s w now = (if w \<in> set (listeners s) then on_pong s w now else s)"

definition interval_event :: "server \<Rightarrow> ws \<Rightarrow> int \<Rightarrow> server" where
  "interval_event s w now = (if w \<in> set (heartbeatTimers s) then heartbeat_tick s w now else s)"

definition timer_event :: "server \<Rightarrow> nat \<Rightarrow> server" where
  "timer_event s h =
     (case map_of (timers s) h of
        None \<Rightarrow> s
      | Some (due, cb) \<Rightarrow>
          (let s1 = clearTimeout s h
           in case cb of
                Request_timeout requestId promise \<Rightarrow> request_timeout s1 requestId promise
              | Auth_failed_close w \<Rightarrow> auth_failed_close s1 w))"

section \<open>Construction and sample inputs\<close>

text \<open>
  The constructor merges the caller's configuration over the defaults and starts from empty
  tables. Of the methods that \<open>_setupRPCMethods\<close> registers, \<open>echo\<close> is kept; the others
  report figures of the running server. No socket has a \<open>clientData\<close> object before it
  connects.
\<close>

definition default_config :: config where
  "default_config =
     \<lparr>enableAuthentication = False, authToken = [], dbTableName = ''sensors_data'',
      requiredFields = [], fieldsToEncrypt = [], enableHeartbeat = True,
      heartbeatInterval = 30000, maxConnections = 100, enableDataValidation = True,
      enableRequestResponse = True, enablePubSub = True, enableRPC = True,
      enableStreaming = True, requestTimeout = 10000, enableBinaryData = True,
      clientTypes = [''microcontroller'', ''application'', ''service'']\<rparr>"

text \<open>
  The state of a new handler. \<open>arrayMethods\<close> belongs to the runtime, not to the handler:
  the names of the methods of \<open>Array.prototype\<close>, here those of ECMAScript 2023.
\<close>

definition array_prototype_names :: "string list" where
  "array_prototype_names =
     [''at'', ''concat'', ''copyWithin'', ''entries'', ''every'', ''fill'', ''filter'', ''find'',
      ''findIndex'', ''findLast'', ''findLastIndex'', ''flat'', ''flatMap'', ''forEach'',
      ''includes'', ''indexOf'', ''join'', ''keys'', ''lastIndexOf'', ''map'', ''pop'', ''push'',
      ''reduce'', ''reduceRight'', ''reverse'', ''shift'', ''slice'', ''some'', ''sort'',
      ''splice'', ''toReversed'', ''toSorted'', ''toSpliced'', ''unshift'', ''values'', ''with'']"

definition constructor :: "config \<Rightarrow> db option \<Rightarrow> server" where
  "constructor cfg dbInstance =
     \<lparr>config = cfg, db = dbInstance, hasServer = False, clients = [],
      clientData = (\<lambda>w. undefined), isRunning = False, connectionCount = 0,
      pendingRequests = [], subscriptions = [],
      rpcMethods = [(''echo'', \<lambda>params cd. Returns params)], streams = [],
      readyState = (\<lambda>w. CONNECTING), listeners = [], heartbeatTimers = [], timers = [],
      nextTimer = 0, nextPromise = 0, arrayMethods = array_prototype_names, effects = []\<rparr>"

text \<open>A server with the shared-token policy, a running default server, and a browser's request.\<close>

definition token_config :: config where
  "token_config = default_config\<lparr>enableAuthentication := True, authToken := ''secret''\<rparr>"

definition running_server :: "config \<Rightarrow> server" where
  "running_server cfg = start (constructor cfg None) True"

definition browser :: request where
  "browser = \<lparr>remoteAddress = ''10.0.0.7'', user_agent = Some ''Mozilla''\<rparr>"

text \<open>
  \<open>one_client\<close>: the default server after one browser has connected at time 0.
  \<open>unauth_client\<close>: the same under the shared-token policy; the client has not sent
  its token.
\<close>

definition one_client :: server where
  "one_client = connection_event (running_server default_config) 1 browser ''client_1'' 0"

definition unauth_client :: server where
  "unauth_client = connection_event (running_server token_config) 1 browser ''client_1'' 0"

definition text_frame :: "message \<Rightarrow> rawData" where
  "text_frame m = \<lparr>isBuffer = False, parse = Parsed m\<rparr>"

text \<open>
  \<open>two_clients\<close>: a second browser has connected. \<open>cam_stream\<close>: client 1 has then
  started the stream \<open>cam\<close>.
\<close>

definition two_clients :: server where
  "two_clients = connection_event one_client 2 browser ''client_2'' 1"

definition cam_stream :: server where
  "cam_stream = message_event two_clients 1 (text_frame (Stream_start ''cam'' ''video'')) 10"

text \<open>
  \<open>data_traffic\<close>: client 1 of \<open>one_client\<close> (connected at time 0, heartbeat interval
  30000) sends a \<open>data\<close> message shortly before each of the first three runs of its
  heartbeat timer, and answers no ping.
\<close>

definition reading :: message where
  "reading = Data [(''type'', JStr ''data''), (''data'', JObj [(''temperature'', JNum 21)])]"

definition data_traffic :: server where
  "data_traffic =
     interval_event
       (message_event
         (interval_event
           (message_event
             (interval_event
               (message_event one_client 1 (text_frame reading) 29000)
               1 30000)
             1 (text_frame reading) 59000)
           1 60000)
         1 (text_frame reading) 89000)
       1 90000"

text \<open>\<open>noise\<close>: a binary frame that is not JSON.\<close>

definition noise :: rawData where
  "noise = \<lparr>isBuffer = True, parse = Parse_error\<rparr>"

text \<open>
  \<open>ingest_server\<close>: a server with a store, validation on and the required field
  \<open>temperature\<close>, with one client. \<open>humidity_only\<close> is a payload without that field,
  declared as category \<open>application\<close> or \<open>sensor\<close>.
\<close>

definition ingest_server :: server where
  "ingest_server =
     connection_event
       (start (constructor (default_config\<lparr>requiredFields := [''temperature'']\<rparr>)
                 (Some \<lparr>encrypt = None\<rparr>)) True)
       1 browser ''client_1'' 0"

definition humidity_object :: "string \<Rightarrow> (string \<times> json) list" where
  "humidity_object category =
     [(''type'', JStr ''data''), (''dataType'', JStr category),
      (''data'', JObj [(''payload'', JObj [(''humidity'', JNum 40)])])]"

definition humidity_only :: "string \<Rightarrow> message" where
  "humidity_only category = Data (humidity_object category)"

text \<open>
  \<open>pending_server\<close>: \<open>one_client\<close> with one outbound request pending, as the promise
  executor of \<open>sendRequest\<close> sets it up.
\<close>

definition pending_server :: server where
  "pending_server = snd (sendRequest_executor one_client 1 ''req_1'' ''status'' JNull 10000 5)"

text \<open>How often the effects settle promise \<open>p\<close>.\<close>

fun settles :: "nat \<Rightarrow> effect \<Rightarrow> bool" where
  "settles p (Resolve q d) = (q = p)"
| "settles p (Reject q e) = (q = p)"
| "settles p x = False"

definition settled :: "nat \<Rightarrow> effect list \<Rightarrow> nat" where
  "settled p effs = length (filter (settles p) effs)"

text \<open>
  The subscribers of a topic, and the recipients of a publication as the specification
  words them: the current subscribers of the topic whose sockets are open and whose
  identifier differs from the excluded one. A subscriber is a socket; its identifier is the
  one in its registry entry.
\<close>

definition subscribers_of :: "server \<Rightarrow> string \<Rightarrow> ws list" where
  "subscribers_of s topic =
     (case map_of (subscriptions s) topic of None \<Rightarrow> [] | Some sockets \<Rightarrow> sockets)"

definition recipients :: "server \<Rightarrow> string \<Rightarrow> string option \<Rightarrow> ws list" where
  "recipients s topic excludeClientId =
     filter (\<lambda>w. w \<in> set (clients s) \<and> Some (cd_id (clientData s w)) \<noteq> excludeClientId \<and>
                 readyState s w = OPEN)
       (subscribers_of s topic)"

text \<open>\<open>chat_room\<close>: both clients of \<open>two_clients\<close> have subscribed to the topic \<open>chat\<close>.\<close>

definition chat_room :: server where
  "chat_room =
     message_event (message_event two_clients 1 (text_frame (Subscribe ''chat'')) 10)
       2 (text_frame (Subscribe ''chat'')) 11"

text \<open>A topic's entry once socket \<open>w\<close> has left it: an entry left empty is deleted.\<close>

definition without_socket :: "ws \<Rightarrow> ws list option \<Rightarrow> ws list option" where
  "without_socket w entry =
     (case entry of
        None \<Rightarrow> None
      | Some sockets \<Rightarrow> if set_delete w sockets = [] then None else Some (set_delete w sockets))"

text \<open>
  \<open>studio\<close>: in \<open>chat_room\<close>, client 1 has started the streams \<open>cam\<close> and \<open>mic\<close> and
  client 2 the stream \<open>screen\<close>.
\<close>

definition studio :: server where
  "studio =
     message_event
       (message_event
         (message_event chat_room 1 (text_frame (Stream_start ''cam'' ''video'')) 20)
         1 (text_frame (Stream_start ''mic'' ''audio'')) 21)
       2 (text_frame (Stream_start ''screen'' ''video'')) 22"

text \<open>
  A run of the server: the callbacks of the transport and of the timers, the settling of a
  database call or of an RPC promise, and the calls of the application on the public
  interface, in any order. \<open>Issues_request\<close> is the promise executor of \<open>sendRequest\<close>
  for a socket, the only code that enters a pending request.
\<close>

datatype event =
    Connects ws request string int
  | Receives ws rawData int
  | Closes ws
  | Pongs ws int
  | Interval_fires ws int
  | Timer_fires nat
  | Db_settles ws "json option" "string + json"
  | Rpc_settles ws string "string + json"
  | Responds ws string json "string option"
  | Calls_start bool
  | Calls_stop
  | Calls_sendRequest string string json int string int
  | Issues_request ws string string json int int
  | Calls_publish string json "string option"
  | Calls_sendToClient string json
  | Calls_startStream string string string
  | Calls_sendStreamData string json "int option"
  | Calls_endStream string
  | Calls_registerRPCMethod string "json \<Rightarrow> client_data \<Rightarrow> rpc_result"
  | Calls_unregisterRPCMethod string

fun step :: "server \<Rightarrow> event \<Rightarrow> server" where
  "step s (Connects w req clientId now) = connection_event s w req clientId now"
| "step s (Receives w raw now) = message_event s w raw now"
| "step s (Closes w) = close_event s w"
| "step s (Pongs w now) = pong_event s w now"
| "step s (Interval_fires w now) = interval_event s w now"
| "step s (Timer_fires h) = timer_event s h"
| "step s (Db_settles w requestId outcome) = saveToDatabase_settled s w requestId outcome"
| "step s (Rpc_settles w requestId outcome) = rpc_promise_settled s w requestId outcome"
| "step s (Responds w requestId responseData err) = respond s w requestId responseData err"
| "step s (Calls_start listening) = start s listening"
| "step s Calls_stop = stop s"
| "step s (Calls_sendRequest clientId endpoint data timeout requestId now) =
     snd (sendRequest s clientId endpoint data timeout requestId now)"
| "step s (Issues_request w requestId endpoint data timeout now) =
     snd (sendRequest_executor s w requestId endpoint data timeout now)"
| "step s (Calls_publish topic data excludeClientId) = fst (publish s topic data excludeClientId)"
| "step s (Calls_sendToClient clientId data) = snd (sendToClient_public s clientId data)"
| "step s (Calls_startStream clientId streamId streamType) = snd (startStream s clientId streamId streamType)"
| "step s (Calls_sendStreamData streamId data sequenceNumber) = snd (sendStreamData s streamId data sequenceNumber)"
| "step s (Calls_endStream streamId) = snd (endStream s streamId)"
| "step s (Calls_registerRPCMethod methodName handler) = registerRPCMethod s methodName handler"
| "step s (Calls_unregisterRPCMethod methodName) = unregisterRPCMethod s methodName"

definition run :: "event list \<Rightarrow> server \<Rightarrow> server" where
  "run events s = fold (\<lambda>e acc. step acc e) events s"





text \<open>
  What a run leaves of the request machinery: the pending table, the armed timers, the two
  allocation counters, and the promise settlements among the effects.
\<close>

fun is_settlement :: "effect \<Rightarrow> bool" where
  "is_settlement (Resolve p d) = True"
| "is_settlement (Reject p e) = True"
| "is_settlement x = False"

definition req_view :: "server \<Rightarrow>
    (string \<times> pending_request) list \<times> (nat \<times> int \<times> timer_callback) list \<times> nat \<times> nat \<times> effect list" where
  "req_view s =
     (pendingRequests s, timers s, nextTimer s, nextPromise s, filter is_settlement (effects s))"

text \<open>
  The invariant of the request machinery. Timer handles are distinct and below the next
  handle; the promise of an armed request timer is allocated, unsettled and belongs to that
  timer alone; a pending entry has its timer armed; no promise is settled twice, and no
  promise that is not yet allocated is settled.
\<close>

definition requests_ok :: "server \<Rightarrow> bool" where
  "requests_ok s \<longleftrightarrow>
     distinct (map fst (pendingRequests s)) \<and>
     distinct (map fst (timers s)) \<and>
     (\<forall>t \<in> set (timers s). fst t < nextTimer s) \<and>
     (\<forall>h due requestId p. (h, due, Request_timeout requestId p) \<in> set (timers s) \<longrightarrow>
        p < nextPromise s \<and> settled p (effects s) = 0) \<and>
     (\<forall>h due requestId h' due' requestId' p.
        (h, due, Request_timeout requestId p) \<in> set (timers s) \<and>
        (h', due', Request_timeout requestId' p) \<in> set (timers s) \<longrightarrow> h = h') \<and>
     (\<forall>requestId req. map_of (pendingRequests s) requestId = Some req \<longrightarrow>
        (\<exists>due. (pr_timeout req, due, Request_timeout requestId (pr_promise req)) \<in> set (timers s))) \<and>
     (\<forall>p. settled p (effects s) \<le> 1) \<and>
     (\<forall>p. nextPromise s \<le> p \<longrightarrow> settled p (effects s) = 0)"

text \<open>
  \<open>late_response\<close>: a request is issued to client 1, its timer runs out, and the client's
  response arrives afterwards.
\<close>

definition late_response :: "event list" where
  "late_response =
     [Calls_start True, Connects 1 browser ''client_1'' 0,
      Issues_request 1 ''req_1'' ''status'' JNull 10000 5,
      Timer_fires 0,
      Receives 1 (text_frame (Response ''req_1'' True (JStr ''late'') None)) 10010]"

text \<open>The stream table and the registry are maps: their keys do not repeat.\<close>

definition tables_ok :: "server \<Rightarrow> bool" where
  "tables_ok s \<longleftrightarrow> distinct (map fst (streams s)) \<and> distinct (clients s)"

text \<open>
  The checks of the ingest categories, stated on the payload. A required field is missing
  when the read yields \<open>undefined\<close>, \<open>null\<close>, or a value whose string form is blank
  after trimming (the string form of \<open>Array.prototype\<close> is empty). The conversion of a
  required field throws when it holds an object with an own \<open>toString\<close>, or an array
  with such an element. The required-field check fails when a field is missing and the
  conversion of no field before it throws; it throws when the conversion of a field throws
  and no field before it is missing.
\<close>

fun field_missing :: "js_value \<Rightarrow> bool" where
  "field_missing Undefined = True"
| "field_missing (Own v) = (v = JNull \<or> blank_String v)"
| "field_missing Array_prototype = True"
| "field_missing Inherited_function = False"
| "field_missing Object_prototype = False"

fun field_throws :: "js_value \<Rightarrow> bool" where
  "field_throws (Own v) = (v \<noteq> JNull \<and> to_string_throws v)"
| "field_throws x = False"


definition required_throws :: "(string \<Rightarrow> js_value) \<Rightarrow> string list \<Rightarrow> bool" where
  "required_throws get required =
     list_ex (\<lambda>field. field_throws (get field))
       (takeWhile (\<lambda>field. \<not> field_missing (get field)) required)"

text \<open>
  The payload as an object, if it is one. The check of category \<open>application\<close> fails when
  the payload has no own \<open>payload\<close> and no own \<open>data\<close> property; the check of
  category \<open>service\<close> fails when it lacks an own \<open>service\<close> or an own \<open>operation\<close>
  property; both throw when the payload has an own property \<open>hasOwnProperty\<close>. Every other
  category is checked for the required fields. A payload that is not an object fails.
\<close>

fun the_object :: "json \<Rightarrow> js_object option" where
  "the_object (JObj kvs) = Some (Object kvs)"
| "the_object (JArr xs) = Some (Array xs)"
| "the_object v = None"


definition check_throws :: "string list \<Rightarrow> config \<Rightarrow> json \<Rightarrow> json \<Rightarrow> bool" where
  "check_throws array_names cfg data dataType =
     (case the_object data of
        None \<Rightarrow> False
      | Some obj \<Rightarrow>
          if dataType = JStr ''application'' \<or> dataType = JStr ''service''
          then hasOwnProperty obj ''hasOwnProperty'' = None
          else required_throws (js_get array_names obj) (requiredFields cfg))"

text \<open>
  \<open>shadowing\<close>: a payload of category \<open>application\<close> with an own property
  \<open>hasOwnProperty\<close>.
\<close>

definition shadowing :: "(string \<times> json) list" where
  "shadowing =
     [(''type'', JStr ''data''), (''dataType'', JStr ''application''),
      (''data'', JObj [(''payload'', JNum 1), (''hasOwnProperty'', JNum 1)])]"

section \<open>Properties\<close>

subsection \<open>Evaluation of the sample inputs\<close>

lemmas sample_defs = one_client_def unauth_client_def connection_event_def running_server_def
  start_def constructor_def default_config_def token_config_def browser_def text_frame_def

lemmas handler_defs = handleNewConnection_def emit_def sendToClient_def ws_close_def
  setupClientEventHandlers_def startClientHeartbeat_def set_add_def set_delete_def Let_def

subsection \<open>The authentication guard\<close>

text \<open>
  The guard of \<open>_handleDataMessage\<close>: under the shared-token policy a \<open>data\<close> message (and
  a \<open>sensor_data\<close> message, which is forwarded to the same handler) of a connection that
  has not authenticated is answered with the error \<open>Authentication required\<close>, and nothing
  else happens.
\<close>

lemma data_message_requires_authentication:
  assumes "enableAuthentication (config s)" and "\<not> cd_isAuthenticated (clientData s w)"
  shows "handleDataMessage s w m now = sendToClient s w (Error_msg ''Authentication required'')"
  using assms by (simp add: handleDataMessage_def)

lemma sensor_data_requires_authentication:
  assumes "enableAuthentication (config s)" and "\<not> cd_isAuthenticated (clientData s w)"
  shows "handleSensorData s w m now = sendToClient s w (Error_msg ''Authentication required'')"
  using assms by (simp add: handleSensorData_def handleDataMessage_def)

text \<open>
  Claim C1. Under the shared-token policy every message other than handshake and auth of a
  connection that has not authenticated is to be answered with an authentication-required
  error and not processed. The other handlers have no such guard. In the server
  \<open>unauth_client\<close> the policy is on and client 1 has not authenticated; its \<open>subscribe\<close>
  message for the topic \<open>alerts\<close> enters it into the subscription index and is
  acknowledged, its \<open>rpc_call\<close> of \<open>echo\<close> runs the handler and is answered with the result,
  and its \<open>stream_start\<close> creates a stream session.
\<close>

theorem unauthenticated_messages_are_processed:
  "enableAuthentication (config unauth_client) \<and>
   \<not> cd_isAuthenticated (clientData unauth_client 1) \<and>
   subscriptions unauth_client = [] \<and>
   subscriptions (message_event unauth_client 1 (text_frame (Subscribe ''alerts'')) 10)
     = [(''alerts'', [1])] \<and>
   effects (message_event unauth_client 1 (text_frame (Subscribe ''alerts'')) 10)
     = effects unauth_client @
       [Send 1 (Subscribe_response ''alerts''), Emit ''client-subscribed'' [''client_1'', ''alerts'']] \<and>
   effects (message_event unauth_client 1 (text_frame (Rpc_call ''r1'' ''echo'' (JNum 7))) 10)
     = effects unauth_client @
       [Invoke ''echo'' ''client_1'', Send 1 (Rpc_response ''r1'' True (Some (JNum 7)) None)] \<and>
   map_option st_clientId
       (map_of (streams (message_event unauth_client 1 (text_frame (Stream_start ''cam'' ''video'')) 10)) ''cam'')
     = Some ''client_1''"
  by (simp add: sample_defs handler_defs message_event_def handleClientMessage_def count_message_def
     handleSubscribe_def handleRPCCall_def handleStreamStart_def)

subsection \<open>Looking a client up by its identifier\<close>

lemma getClientByIdAndSocket_loop_undefined: "getClientByIdAndSocket_loop s None sockets = None"
  by (induction sockets) auto

lemma getClientByIdAndSocket_undefined: "getClientByIdAndSocket s None = None"
  by (simp add: getClientByIdAndSocket_def getClientByIdAndSocket_loop_undefined)

text \<open>Whatever the registry holds, \<open>sendRequest\<close> ends in the client-not-found error.\<close>

lemma sendRequest_never_finds_the_client:
  "sendRequest s clientId endpoint data timeout requestId now = (Inl (Client_not_found clientId), s)"
  by (simp add: sendRequest_def getClientByIdAndSocket_undefined)

text \<open>
  Claim C2. For a registered client, \<open>sendRequest\<close> is to store a pending request and send
  the request message instead of failing with client-not-found. In \<open>one_client\<close> the
  identifier \<open>client_1\<close> is registered: the lookup with the identifier finds socket 1, and
  \<open>startStream\<close>, which passes the identifier on, succeeds. \<open>sendRequest\<close> for the same
  identifier fails with client-not-found and leaves the server as it was: no pending entry,
  no timer, no request message.
\<close>

theorem sendRequest_registered_client_not_found:
  "map_option fst (getClientByIdAndSocket one_client (Some ''client_1'')) = Some 1 \<and>
   fst (startStream one_client ''client_1'' ''stream_1'' ''video'') = True \<and>
   sendRequest one_client ''client_1'' ''status'' JNull 10000 ''req_1'' 5
     = (Inl (Client_not_found ''client_1''), one_client)"
  by (simp add: sendRequest_def getClientByIdAndSocket_undefined startStream_def
      getClientByIdAndSocket_def sample_defs handler_defs)

subsection \<open>The connection counter\<close>

text \<open>
  Claim C10. The connection counter is to equal the number of registry entries at all
  times. \<open>stop()\<close> empties the registry and resets the counter, but the sockets it closed
  emit their \<open>close\<close> events afterwards, and \<open>_handleClientDisconnection\<close> then decrements
  the counter although the registry has no entry left to delete. After one connection,
  \<open>stop()\<close> and the close event of that socket, the counter is -1 and the registry is empty.
\<close>

theorem counter_below_registry_after_stop:
  "connectionCount one_client = 1 \<and> clients one_client = [1] \<and>
   connectionCount (stop one_client) = 0 \<and> clients (stop one_client) = [] \<and>
   1 \<in> set (listeners (stop one_client)) \<and>
   connectionCount (close_event (stop one_client) 1) = - 1 \<and>
   clients (close_event (stop one_client) 1) = []"
  by (simp add: sample_defs handler_defs stop_def close_event_def handleClientDisconnection_def
    close_if_open_def)

subsection \<open>Starting a stream\<close>

lemmas event_defs = two_clients_def cam_stream_def message_event_def handleClientMessage_def
  count_message_def




subsection \<open>The heartbeat monitor\<close>

text \<open>
  Claim C9, as stated: every inbound application message updates the timestamp that the
  heartbeat monitor consults, so a connection with one message per heartbeat interval is
  never force-closed. The monitor consults \<open>lastHeartbeat\<close>; a \<open>data\<close> message sets
  \<open>lastDataTime\<close>. In \<open>data_traffic\<close> the client sends one \<open>data\<close> message in each
  interval of 30000 ms: the timer pings at 30000 and at 60000, and at 90000, with
  \<open>lastHeartbeat\<close> still at the connection time 0, it closes the socket.
\<close>

theorem data_traffic_times_out:
  "heartbeatInterval (config one_client) = 30000 \<and>
   cd_lastDataTime (clientData data_traffic 1) = Some 89000 \<and>
   cd_lastHeartbeat (clientData data_traffic 1) = 0 \<and>
   effects data_traffic
     = effects one_client @
       [Send 1 (Data_response True None None None), Emit ''data-received'' [''client_1''],
        Ping_frame 1,
        Send 1 (Data_response True None None None), Emit ''data-received'' [''client_1''],
        Ping_frame 1,
        Send 1 (Data_response True None None None), Emit ''data-received'' [''client_1''],
        Close 1 1000 ''Heartbeat timeout'']"
  by (simp add: data_traffic_def reading_def interval_event_def heartbeat_tick_def
        clearInterval_def sample_defs handler_defs event_defs handleDataMessage_def
        data_of_def dataType_of_def first_truthy_def validateData_def validateSensorData_def)

lemma clientData_sendToClient [simp]: "clientData (sendToClient s w m) = clientData s"
  by (simp add: sendToClient_def)

lemma clientData_emit [simp]: "clientData (emit s n a) = clientData s"
  by (simp add: emit_def)

lemma clientData_publish_forEach:
  "clientData (fst (publish_forEach topic d ex sockets (s, n))) = clientData s"
proof (induction sockets arbitrary: s n)
  case Nil
  show ?case by simp
next
  case (Cons w rest)
  show ?case
    by (cases "clients_get s w") (simp_all add: Cons.IH)
qed

lemma clientData_publish [simp]: "clientData (fst (publish s topic d ex)) = clientData s"
  by (simp add: publish_def clientData_publish_forEach split: option.split)

lemma lastHeartbeat_handleDataMessage:
  "cd_lastHeartbeat (clientData (handleDataMessage s w m now) w) = cd_lastHeartbeat (clientData s w)"
  by (simp add: handleDataMessage_def Let_def saveToDatabase_def saveToDatabase_settled_def
      split: option.split verdict.split)

text \<open>Only the \<open>heartbeat\<close> message moves \<open>lastHeartbeat\<close>: one case per message type.\<close>

lemma lastHeartbeat_dispatch:
  assumes "m \<noteq> Heartbeat"
  shows "cd_lastHeartbeat (clientData (dispatch s w m now) w) = cd_lastHeartbeat (clientData s w)"
proof (cases m)
  case (Handshake clientType capabilities)
  then show ?thesis
    by (simp add: handleHandshake_def Let_def split: option.split)
next
  case (Auth token)
  then show ?thesis
    by (simp add: handleAuthentication_def Let_def setTimeout_def)
next
  case (Sensor_data obj)
  then show ?thesis
    by (simp add: handleSensorData_def lastHeartbeat_handleDataMessage)
next
  case (Data obj)
  then show ?thesis
    by (simp add: lastHeartbeat_handleDataMessage)
next
  case (Request requestId endpoint d)
  then show ?thesis
    by (simp add: handleRequest_def)
next
  case (Response requestId success d err)
  then show ?thesis
    by (simp add: handleResponse_def Let_def clearTimeout_def split: option.split)
next
  case (Subscribe topic)
  then show ?thesis
    by (simp add: handleSubscribe_def Let_def)
next
  case (Unsubscribe topic)
  then show ?thesis
    by (simp add: handleUnsubscribe_def Let_def)
next
  case (Publish topic d)
  then show ?thesis
    by (simp add: handlePublish_def)
next
  case (Rpc_call requestId meth params)
  then show ?thesis
    by (simp add: handleRPCCall_def Let_def split: option.split rpc_result.split)
next
  case (Stream_start streamId streamType)
  then show ?thesis
    by (simp add: handleStreamStart_def Let_def)
next
  case (Stream_data streamId d sequenceNumber)
  then show ?thesis
    by (simp add: handleStreamData_def)
next
  case (Stream_end streamId)
  then show ?thesis
    by (simp add: handleStreamEnd_def Let_def)
next
  case Heartbeat
  with assms show ?thesis by simp
next
  case Ping
  then show ?thesis by simp
next
  case (Unknown_type ty)
  then show ?thesis by simp
qed

lemma lastHeartbeat_handleClientMessage:
  assumes "parse raw \<noteq> Parsed Heartbeat"
  shows "cd_lastHeartbeat (clientData (handleClientMessage s w raw now) w)
           = cd_lastHeartbeat (clientData s w)"
proof (cases "parse raw")
  case Parse_error
  then show ?thesis by (simp add: handleClientMessage_def handleBinaryMessage_def)
next
  case Parsed_null
  then show ?thesis by (simp add: handleClientMessage_def count_message_def)
next
  case (Parsed m)
  with assms have "m \<noteq> Heartbeat" by simp
  from lastHeartbeat_dispatch [OF this] Parsed show ?thesis
    by (simp add: handleClientMessage_def count_message_def)
qed

lemma effects_heartbeat_tick:
  "effects (heartbeat_tick s w t)
     = effects s @
       (if readyState s w = OPEN
        then (if t - cd_lastHeartbeat (clientData s w) > heartbeatInterval (config s) * 2
              then [Close w 1000 ''Heartbeat timeout''] else [Ping_frame w])
        else [])"
  by (simp add: heartbeat_tick_def Let_def clearInterval_def ws_close_def)

text \<open>
  Every frame that parses is counted and stamps \<open>lastDataTime\<close>; no handler touches
  these two fields afterwards.
\<close>

lemma counters_handleDataMessage:
  "cd_lastDataTime (clientData (handleDataMessage s w m now) w) = cd_lastDataTime (clientData s w) \<and>
   cd_dataReceived (clientData (handleDataMessage s w m now) w) = cd_dataReceived (clientData s w)"
  by (simp add: handleDataMessage_def Let_def saveToDatabase_def saveToDatabase_settled_def
      split: option.split verdict.split)

lemma counters_dispatch:
  "cd_lastDataTime (clientData (dispatch s w m now) w) = cd_lastDataTime (clientData s w) \<and>
   cd_dataReceived (clientData (dispatch s w m now) w) = cd_dataReceived (clientData s w)"
proof (cases m)
  case (Handshake clientType capabilities)
  then show ?thesis
    by (simp add: handleHandshake_def Let_def split: option.split)
next
  case (Auth token)
  then show ?thesis
    by (simp add: handleAuthentication_def Let_def setTimeout_def)
next
  case (Sensor_data obj)
  then show ?thesis
    by (simp add: handleSensorData_def counters_handleDataMessage)
next
  case (Data obj)
  then show ?thesis
    by (simp add: counters_handleDataMessage)
next
  case (Request requestId endpoint d)
  then show ?thesis
    by (simp add: handleRequest_def)
next
  case (Response requestId success d err)
  then show ?thesis
    by (simp add: handleResponse_def Let_def clearTimeout_def split: option.split)
next
  case (Subscribe topic)
  then show ?thesis
    by (simp add: handleSubscribe_def Let_def)
next
  case (Unsubscribe topic)
  then show ?thesis
    by (simp add: handleUnsubscribe_def Let_def)
next
  case (Publish topic d)
  then show ?thesis
    by (simp add: handlePublish_def)
next
  case (Rpc_call requestId meth params)
  then show ?thesis
    by (simp add: handleRPCCall_def Let_def split: option.split rpc_result.split)
next
  case (Stream_start streamId streamType)
  then show ?thesis
    by (simp add: handleStreamStart_def Let_def)
next
  case (Stream_data streamId d sequenceNumber)
  then show ?thesis
    by (simp add: handleStreamData_def)
next
  case (Stream_end streamId)
  then show ?thesis
    by (simp add: handleStreamEnd_def Let_def)
next
  case Heartbeat
  then show ?thesis by (simp add: handleHeartbeat_def)
next
  case Ping
  then show ?thesis by simp
next
  case (Unknown_type ty)
  then show ?thesis by simp
qed

lemma counters_handleClientMessage:
  "cd_lastDataTime (clientData (handleClientMessage s w raw now) w)
     = (if parse raw = Parse_error then cd_lastDataTime (clientData s w) else Some now) \<and>
   cd_dataReceived (clientData (handleClientMessage s w raw now) w)
     = (if parse raw = Parse_error then cd_dataReceived (clientData s w)
        else cd_dataReceived (clientData s w) + 1)"
proof (cases "parse raw")
  case Parse_error
  then show ?thesis by (simp add: handleClientMessage_def handleBinaryMessage_def)
next
  case Parsed_null
  then show ?thesis by (simp add: handleClientMessage_def count_message_def)
next
  case (Parsed m)
  from counters_dispatch [of "count_message s w now" w m now] Parsed show ?thesis
    by (simp add: handleClientMessage_def count_message_def)
qed

lemma heartbeat_message:
  assumes "parse raw = Parsed Heartbeat"
  shows "handleClientMessage s w raw now
           = sendToClient
               (s\<lparr>clientData := (clientData s)
                   (w := (clientData s w)\<lparr>cd_lastDataTime := Some now,
                          cd_dataReceived := cd_dataReceived (clientData s w) + 1,
                          cd_lastHeartbeat := now\<rparr>)\<rparr>)
               w Heartbeat_response"
  using assms by (simp add: handleClientMessage_def count_message_def handleHeartbeat_def)

text \<open>
  Claim C9, amended. For a connection whose callbacks are installed: an inbound
  \<open>heartbeat\<close> message and a pong set the connection's \<open>lastHeartbeat\<close>, the timestamp
  the monitor consults, to the time of arrival; every other inbound frame leaves
  \<open>lastHeartbeat\<close> unchanged. Every inbound frame that parses as JSON (a \<open>heartbeat\<close>
  message among them) sets \<open>lastDataTime\<close> to the time of arrival and adds one to the
  message counter; a frame that does not parse leaves both unchanged, and so does a pong.
  A run of the monitor at time \<open>t\<close> on an open socket closes the socket exactly when \<open>t\<close>
  minus \<open>lastHeartbeat\<close> exceeds twice the heartbeat interval, and pings otherwise; on a
  socket that is not open it does neither. So a run on an open socket that follows a
  \<open>heartbeat\<close> message or a pong by at most twice the interval pings and does not close.
\<close>

theorem heartbeat_monitor:
  assumes "w \<in> set (listeners s)"
  shows "(parse raw = Parsed Heartbeat \<longrightarrow>
            cd_lastHeartbeat (clientData (message_event s w raw now) w) = now) \<and>
         cd_lastHeartbeat (clientData (pong_event s w now) w) = now \<and>
         (parse raw \<noteq> Parsed Heartbeat \<longrightarrow>
            cd_lastHeartbeat (clientData (message_event s w raw now) w)
              = cd_lastHeartbeat (clientData s w)) \<and>
         (parse raw \<noteq> Parse_error \<longrightarrow>
            cd_lastDataTime (clientData (message_event s w raw now) w) = Some now \<and>
            cd_dataReceived (clientData (message_event s w raw now) w)
              = cd_dataReceived (clientData s w) + 1) \<and>
         (parse raw = Parse_error \<longrightarrow>
            cd_lastDataTime (clientData (message_event s w raw now) w)
              = cd_lastDataTime (clientData s w) \<and>
            cd_dataReceived (clientData (message_event s w raw now) w)
              = cd_dataReceived (clientData s w)) \<and>
         cd_lastDataTime (clientData (pong_event s w now) w) = cd_lastDataTime (clientData s w) \<and>
         cd_dataReceived (clientData (pong_event s w now) w) = cd_dataReceived (clientData s w) \<and>
         effects (heartbeat_tick s w t)
           = effects s @
             (if readyState s w = OPEN
              then (if t - cd_lastHeartbeat (clientData s w) > heartbeatInterval (config s) * 2
                    then [Close w 1000 ''Heartbeat timeout''] else [Ping_frame w])
              else []) \<and>
         (readyState s w = OPEN \<and> t - now \<le> heartbeatInterval (config s) * 2 \<longrightarrow>
            (parse raw = Parsed Heartbeat \<longrightarrow>
               effects (heartbeat_tick (message_event s w raw now) w t)
                 = effects s @ [Send w Heartbeat_response, Ping_frame w]) \<and>
            effects (heartbeat_tick (pong_event s w now) w t) = effects s @ [Ping_frame w])"
proof -
  have m: "message_event s w raw now = handleClientMessage s w raw now"
    using assms by (simp add: message_event_def)
  have p: "pong_event s w now = on_pong s w now"
    using assms by (simp add: pong_event_def)
  have a: "parse raw = Parsed Heartbeat \<longrightarrow>
             cd_lastHeartbeat (clientData (handleClientMessage s w raw now) w) = now"
    by (simp add: heartbeat_message)
  have b: "parse raw \<noteq> Parsed Heartbeat \<longrightarrow>
            cd_lastHeartbeat (clientData (handleClientMessage s w raw now) w)
              = cd_lastHeartbeat (clientData s w)"
    by (simp add: lastHeartbeat_handleClientMessage)
  have c: "readyState s w = OPEN \<and> t - now \<le> heartbeatInterval (config s) * 2 \<longrightarrow>
            (parse raw = Parsed Heartbeat \<longrightarrow>
               effects (heartbeat_tick (handleClientMessage s w raw now) w t)
                 = effects s @ [Send w Heartbeat_response, Ping_frame w]) \<and>
            effects (heartbeat_tick (on_pong s w now) w t) = effects s @ [Ping_frame w]"
    by (simp add: heartbeat_message effects_heartbeat_tick sendToClient_def on_pong_def)
  have d: "cd_lastHeartbeat (clientData (on_pong s w now) w) = now \<and>
           cd_lastDataTime (clientData (on_pong s w now) w) = cd_lastDataTime (clientData s w) \<and>
           cd_dataReceived (clientData (on_pong s w now) w) = cd_dataReceived (clientData s w)"
    by (simp add: on_pong_def)
  show ?thesis
    unfolding m p
    using a b c d counters_handleClientMessage [of s w raw now] effects_heartbeat_tick [of s w t]
    by simp
qed

theorem heartbeat_monitor_witness:
  "1 \<in> set (listeners one_client) \<and>
   parse (text_frame Heartbeat) = Parsed Heartbeat \<and>
   parse (text_frame reading) \<noteq> Parsed Heartbeat \<and>
   parse (text_frame reading) \<noteq> Parse_error \<and>
   parse noise = Parse_error \<and>
   readyState one_client 1 = OPEN \<and>
   30000 - 29000 \<le> heartbeatInterval (config one_client) * 2 \<and>
   cd_lastHeartbeat (clientData (message_event one_client 1 (text_frame Heartbeat) 29000) 1) = 29000 \<and>
   cd_lastHeartbeat (clientData (message_event one_client 1 (text_frame reading) 29000) 1)
     = cd_lastHeartbeat (clientData one_client 1) \<and>
   cd_lastDataTime (clientData (message_event one_client 1 (text_frame reading) 29000) 1) = Some 29000 \<and>
   cd_dataReceived (clientData (message_event one_client 1 (text_frame reading) 29000) 1)
     = cd_dataReceived (clientData one_client 1) + 1 \<and>
   cd_lastDataTime (clientData (message_event one_client 1 noise 29000) 1)
     = cd_lastDataTime (clientData one_client 1) \<and>
   cd_dataReceived (clientData (message_event one_client 1 noise 29000) 1)
     = cd_dataReceived (clientData one_client 1) \<and>
   effects (heartbeat_tick (message_event one_client 1 (text_frame Heartbeat) 29000) 1 30000)
     = effects one_client @ [Send 1 Heartbeat_response, Ping_frame 1] \<and>
   effects (heartbeat_tick (pong_event one_client 1 29000) 1 30000)
     = effects one_client @ [Ping_frame 1]"
proof -
  have h0: "1 \<in> set (listeners one_client)"
    by (simp add: sample_defs handler_defs)
  have h1: "parse (text_frame reading) \<noteq> Parsed Heartbeat" "parse (text_frame reading) \<noteq> Parse_error"
    "parse (text_frame Heartbeat) = Parsed Heartbeat"
    by (simp_all add: text_frame_def reading_def)
  have h2: "readyState one_client 1 = OPEN"
    by (simp add: sample_defs handler_defs)
  have h3: "heartbeatInterval (config one_client) = 30000"
    by (simp add: sample_defs handler_defs)
  from heartbeat_monitor [OF h0, of "text_frame Heartbeat" 29000 30000] h1 h2 h3
  have x: "cd_lastHeartbeat (clientData (message_event one_client 1 (text_frame Heartbeat) 29000) 1) = 29000 \<and>
     effects (heartbeat_tick (message_event one_client 1 (text_frame Heartbeat) 29000) 1 30000)
     = effects one_client @ [Send 1 Heartbeat_response, Ping_frame 1] \<and>
   effects (heartbeat_tick (pong_event one_client 1 29000) 1 30000)
     = effects one_client @ [Ping_frame 1]"
    by simp
  from heartbeat_monitor [OF h0, of "text_frame reading" 29000 30000] h1 h2 h3
  have y: "cd_lastHeartbeat (clientData (message_event one_client 1 (text_frame reading) 29000) 1)
     = cd_lastHeartbeat (clientData one_client 1) \<and>
   cd_lastDataTime (clientData (message_event one_client 1 (text_frame reading) 29000) 1) = Some 29000 \<and>
   cd_dataReceived (clientData (message_event one_client 1 (text_frame reading) 29000) 1)
     = cd_dataReceived (clientData one_client 1) + 1"
    by simp
  have h4: "parse noise = Parse_error"
    by (simp add: noise_def)
  from heartbeat_monitor [OF h0, of noise 29000 30000] h4
  have z: "cd_lastDataTime (clientData (message_event one_client 1 noise 29000) 1)
     = cd_lastDataTime (clientData one_client 1) \<and>
   cd_dataReceived (clientData (message_event one_client 1 noise 29000) 1)
     = cd_dataReceived (clientData one_client 1)"
    by simp
  from x y z h0 h1 h2 h3 h4 show ?thesis by simp
qed

subsection \<open>Stopping the server\<close>

lemma fold_clearTimeout:
  "fold (\<lambda>(requestId, req) acc. clearTimeout acc (pr_timeout req)) reqs s
     = s\<lparr>timers := filter (\<lambda>t. fst t \<notin> pr_timeout ` snd ` set reqs) (timers s)\<rparr>"
proof (induction reqs arbitrary: s)
  case Nil
  show ?case by simp
next
  case (Cons r reqs)
  obtain requestId req where r: "r = (requestId, req)" by (cases r)
  have "fold (\<lambda>(requestId, req) acc. clearTimeout acc (pr_timeout req)) (r # reqs) s
          = fold (\<lambda>(requestId, req) acc. clearTimeout acc (pr_timeout req)) reqs
              (clearTimeout s (pr_timeout req))"
    by (simp add: r)
  also have "\<dots> = (clearTimeout s (pr_timeout req))
                     \<lparr>timers := filter (\<lambda>t. fst t \<notin> pr_timeout ` snd ` set reqs)
                                  (timers (clearTimeout s (pr_timeout req)))\<rparr>"
    by (rule Cons.IH)
  also have "\<dots> = s\<lparr>timers := filter (\<lambda>t. fst t \<notin> pr_timeout ` snd ` set (r # reqs)) (timers s)\<rparr>"
    by (simp add: clearTimeout_def r conj_commute)
  finally show ?case .
qed

lemma fold_close_if_open:
  assumes "distinct sockets"
  shows "fold close_if_open sockets s
     = s\<lparr>readyState := (\<lambda>w. if w \<in> set sockets \<and> readyState s w = OPEN then CLOSING else readyState s w),
          effects := effects s @ map (\<lambda>w. Close w 1000 ''Server shutdown'')
                                   (filter (\<lambda>w. readyState s w = OPEN) sockets)\<rparr>"
  using assms
proof (induction sockets arbitrary: s)
  case Nil
  show ?case by simp
next
  case (Cons w rest)
  then have d: "distinct rest" and n: "w \<notin> set rest" by simp_all
  define s1 where "s1 = close_if_open w s"
  have rs: "\<And>v. v \<in> set rest \<Longrightarrow> readyState s1 v = readyState s v"
    using n by (auto simp: s1_def close_if_open_def ws_close_def)
  have f: "filter (\<lambda>v. readyState s1 v = OPEN) rest = filter (\<lambda>v. readyState s v = OPEN) rest"
    using rs by (auto intro: filter_cong)
  have "fold close_if_open (w # rest) s = fold close_if_open rest s1"
    by (simp add: s1_def)
  also have "\<dots> = s1\<lparr>readyState := (\<lambda>v. if v \<in> set rest \<and> readyState s1 v = OPEN then CLOSING else readyState s1 v),
          effects := effects s1 @ map (\<lambda>v. Close v 1000 ''Server shutdown'')
                                   (filter (\<lambda>v. readyState s1 v = OPEN) rest)\<rparr>"
    by (rule Cons.IH [OF d])
  also have "\<dots> = s\<lparr>readyState := (\<lambda>v. if v \<in> set (w # rest) \<and> readyState s v = OPEN then CLOSING else readyState s v),
          effects := effects s @ map (\<lambda>v. Close v 1000 ''Server shutdown'')
                                   (filter (\<lambda>v. readyState s v = OPEN) (w # rest))\<rparr>"
    unfolding f using n rs
    by (auto simp add: s1_def close_if_open_def ws_close_def fun_eq_iff)
  finally show ?case .
qed

text \<open>
  \<open>stop()\<close> in closed form, for every state with a running server and a registry without
  repetition: it disarms the timers of the pending requests and empties the pending table
  without settling a promise, empties the stream table, the subscription table and the
  registry, resets the counter, and closes every registered socket that is open with the
  code 1000 before it closes the listening server.
\<close>

lemma stop_running_server:
  assumes "isRunning s" and "distinct (clients s)"
  shows "timers (stop s) = filter (\<lambda>t. fst t \<notin> pr_timeout ` snd ` set (pendingRequests s)) (timers s) \<and>
         (\<forall>(requestId, req) \<in> set (pendingRequests s). map_of (timers (stop s)) (pr_timeout req) = None) \<and>
         pendingRequests (stop s) = [] \<and> streams (stop s) = [] \<and> subscriptions (stop s) = [] \<and>
         clients (stop s) = [] \<and> \<not> isRunning (stop s) \<and> connectionCount (stop s) = 0 \<and>
         effects (stop s)
           = effects s @
             map (\<lambda>w. Close w 1000 ''Server shutdown'') (filter (\<lambda>w. readyState s w = OPEN) (clients s)) @
             (if hasServer s then [Server_close] else []) @ [Emit ''server-stopped'' []] \<and>
         (\<forall>p. settled p (effects (stop s)) = settled p (effects s))"
proof -
  have t: "timers (stop s) = filter (\<lambda>t. fst t \<notin> pr_timeout ` snd ` set (pendingRequests s)) (timers s)"
    using assms by (simp add: stop_def Let_def fold_clearTimeout fold_close_if_open emit_def)
  have c: "\<forall>(requestId, req) \<in> set (pendingRequests s). map_of (timers (stop s)) (pr_timeout req) = None"
  proof (clarify)
    fix requestId req assume "(requestId, req) \<in> set (pendingRequests s)"
    then have "pr_timeout req \<in> pr_timeout ` snd ` set (pendingRequests s)" by force
    then have "pr_timeout req \<notin> fst ` set (timers (stop s))" unfolding t by force
    then show "map_of (timers (stop s)) (pr_timeout req) = None" by (simp add: map_of_eq_None_iff)
  qed
  have e: "effects (stop s)
           = effects s @
             map (\<lambda>w. Close w 1000 ''Server shutdown'') (filter (\<lambda>w. readyState s w = OPEN) (clients s)) @
             (if hasServer s then [Server_close] else []) @ [Emit ''server-stopped'' []]"
    using assms by (simp add: stop_def Let_def fold_clearTimeout fold_close_if_open emit_def)
  have r: "pendingRequests (stop s) = [] \<and> streams (stop s) = [] \<and> subscriptions (stop s) = [] \<and>
         clients (stop s) = [] \<and> \<not> isRunning (stop s) \<and> connectionCount (stop s) = 0"
    using assms by (simp add: stop_def Let_def fold_clearTimeout fold_close_if_open emit_def)
  have "\<forall>p. settled p (effects (stop s)) = settled p (effects s)"
    by (simp add: e settled_def filter_map comp_def)
  with t c e r show ?thesis by blast
qed

text \<open>
  \<open>pending_server\<close> is not a state of a run of the program: its pending request is
  entered by the executor of \<open>sendRequest\<close>, which the lookup keeps \<open>sendRequest\<close>
  from reaching. From that state \<open>stop()\<close> disarms the timer of the request and settles
  no promise.
\<close>

lemma stop_with_a_pending_request:
  "isRunning pending_server \<and>
   pendingRequests pending_server = [(''req_1'', \<lparr>pr_promise = 0, pr_timeout = 0\<rparr>)] \<and>
   timers pending_server = [(0, 10005, Request_timeout ''req_1'' 0)] \<and>
   settled 0 (effects pending_server) = 0 \<and>
   pendingRequests (stop pending_server) = [] \<and>
   timers (stop pending_server) = [] \<and>
   settled 0 (effects (stop pending_server)) = 0"
  by (simp add: pending_server_def sendRequest_executor_def setTimeout_def stop_def clearTimeout_def
      close_if_open_def settled_def sample_defs handler_defs)

subsection \<open>Ingest validation\<close>

lemmas ingest_defs = ingest_server_def humidity_only_def humidity_object_def handleDataMessage_def
  data_of_def dataType_of_def first_truthy_def validateData_def validateSensorData_def
  validateApplicationData_def validateServiceData_def saveToDatabase_def













text \<open>A payload that shadows \<open>hasOwnProperty\<close> is answered by the \<open>catch\<close> block.\<close>

lemma shadowed_hasOwnProperty_is_an_error:
  "check_throws (arrayMethods ingest_server) (config ingest_server) (data_of shadowing) (dataType_of shadowing) \<and>
   effects (message_event ingest_server 1 (text_frame (Data shadowing)) 10)
     = effects ingest_server @ [Send 1 (Data_response False (Some ''Error processing data'') None None)]"
  by (simp add: sample_defs handler_defs event_defs ingest_defs check_throws_def shadowing_def)

text \<open>
  Reads through the prototype chain: an object has a \<open>constructor\<close> and an array a
  \<open>length\<close> and its indices, so a required field of such a name is present; an object
  with an own \<open>toString\<close> in a required field makes the check throw.
\<close>

lemma inherited_properties_are_present:
  "validateData array_prototype_names (default_config\<lparr>requiredFields := [''constructor'']\<rparr>)
     (JObj [(''humidity'', JNum 40)]) (JStr ''sensor'') = Valid \<and>
   validateData array_prototype_names (default_config\<lparr>requiredFields := [''length'']\<rparr>)
     (JArr [JNum 40]) (JStr ''general'') = Valid \<and>
   validateData array_prototype_names (default_config\<lparr>requiredFields := [''length'']\<rparr>)
     (JObj [(''humidity'', JNum 40)]) (JStr ''general'') = Invalid \<and>
   validateData array_prototype_names (default_config\<lparr>requiredFields := [''0'']\<rparr>)
     (JArr [JNum 40]) (JStr ''general'') = Valid \<and>
   validateData array_prototype_names (default_config\<lparr>requiredFields := [''1'']\<rparr>)
     (JArr [JNum 40]) (JStr ''general'') = Invalid \<and>
   validateData array_prototype_names (default_config\<lparr>requiredFields := [''__proto__'']\<rparr>)
     (JArr [JNum 40]) (JStr ''general'') = Invalid \<and>
   validateData array_prototype_names (default_config\<lparr>requiredFields := [''humidity'']\<rparr>)
     (JObj [(''humidity'', JObj [(''toString'', JNum 1)])]) (JStr ''general'') = Type_error"
  by (simp add: default_config_def validateData_def validateSensorData_def
      object_prototype_names_def array_prototype_names_def array_index_def
      char_of_eq_iff take_bit_eq_mod)

text \<open>
  \<open>trim\<close> strips the no-break space U+00A0 and the byte-order mark U+FEFF; the spread of a
  string indexes its UTF-16 code units, two of them for a character outside the basic
  plane.
\<close>

lemma no_break_space_is_blank:
  "blank_String (JStr [CHR 0xC2, CHR 0xA0]) \<and>
   blank_String (JStr [CHR 0xEF, CHR 0xBB, CHR 0xBF, CHR 0x20]) \<and>
   \<not> blank_String (JStr [CHR 0xC3, CHR 0xA9]) \<and> \<not> blank_String (JArr [JArr [], JNull]) \<and>
   blank_String (JArr [JStr '' '']) \<and> blank_String (JStr [])"
  by (simp add: js_whitespace_def)

lemma spread_string:
  "spread (JStr ''ab'') = [(''0'', JStr ''a''), (''1'', JStr ''b'')] \<and>
   spread (JStr [CHR 0xF0, CHR 0x9F, CHR 0x98, CHR 0x80])
     = [(''0'', JStr [CHR 0xED, CHR 0xA0, CHR 0xBD]), (''1'', JStr [CHR 0xED, CHR 0xB8, CHR 0x80])] \<and>
   spread (JArr [JNull, JNum 2]) = [(''0'', JNull), (''1'', JNum 2)]"
  by (simp add: utf16_units_def utf8_encode_def Let_def char_of_eq_iff take_bit_eq_mod)

subsection \<open>Publishing to a topic\<close>

text \<open>The loop over the subscribers, in closed form.\<close>

lemma publish_forEach_eq:
  "publish_forEach topic d ex sockets (s, n)
     = (s\<lparr>effects := effects s @
             map (\<lambda>w. Send w (Publish_msg topic d))
               (filter (\<lambda>w. w \<in> set (clients s) \<and> Some (cd_id (clientData s w)) \<noteq> ex \<and>
                            readyState s w = OPEN) sockets)\<rparr>,
        n + length (filter (\<lambda>w. w \<in> set (clients s) \<and> Some (cd_id (clientData s w)) \<noteq> ex \<and>
                            readyState s w = OPEN) sockets))"
proof (induction sockets arbitrary: s n)
  case Nil
  show ?case by simp
next
  case (Cons w rest)
  show ?case
  proof (cases "w \<in> set (clients s) \<and> Some (cd_id (clientData s w)) \<noteq> ex \<and> readyState s w = OPEN")
    case True
    then show ?thesis
      by (simp add: clients_get_def Cons.IH sendToClient_def)
  next
    case False
    then show ?thesis
      by (auto simp add: clients_get_def Cons.IH)
  qed
qed

lemma publish_eq:
  "publish s topic d ex
     = (s\<lparr>effects := effects s @ map (\<lambda>w. Send w (Publish_msg topic d)) (recipients s topic ex)\<rparr>,
        length (recipients s topic ex))"
  by (simp add: publish_def recipients_def subscribers_of_def publish_forEach_eq split: option.split)

text \<open>
  Claim C5. \<open>publish(topic, data, excludeClientId)\<close> hands one \<open>publish\<close> frame with the
  payload to each recipient, in the order of subscription and to no one else, changes
  nothing else in the server, and returns the number of recipients. With no subscriber it
  changes nothing and returns 0. A registered subscriber whose identifier is the excluded
  one is not among the recipients. When every subscriber is registered, the recipients are
  the subscribers with an open socket and an identifier other than the excluded one; and
  no recipient is served twice.
\<close>

theorem publish_reaches_recipients:
  "publish s topic d ex
     = (s\<lparr>effects := effects s @ map (\<lambda>w. Send w (Publish_msg topic d)) (recipients s topic ex)\<rparr>,
        length (recipients s topic ex)) \<and>
   (subscribers_of s topic = [] \<longrightarrow> publish s topic d ex = (s, 0)) \<and>
   (\<forall>w \<in> set (subscribers_of s topic).
      w \<in> set (clients s) \<and> ex = Some (cd_id (clientData s w)) \<longrightarrow>
        w \<notin> set (recipients s topic ex)) \<and>
   (set (subscribers_of s topic) \<subseteq> set (clients s) \<longrightarrow>
      recipients s topic ex
        = filter (\<lambda>w. readyState s w = OPEN \<and> Some (cd_id (clientData s w)) \<noteq> ex)
            (subscribers_of s topic)) \<and>
   (distinct (subscribers_of s topic) \<longrightarrow> distinct (recipients s topic ex))"
proof -
  have "subscribers_of s topic = [] \<longrightarrow> publish s topic d ex = (s, 0)"
    by (simp add: publish_eq recipients_def)
  moreover have "\<forall>w \<in> set (subscribers_of s topic).
      w \<in> set (clients s) \<and> ex = Some (cd_id (clientData s w)) \<longrightarrow>
        w \<notin> set (recipients s topic ex)"
    by (simp add: recipients_def)
  moreover have "set (subscribers_of s topic) \<subseteq> set (clients s) \<longrightarrow>
      recipients s topic ex
        = filter (\<lambda>w. readyState s w = OPEN \<and> Some (cd_id (clientData s w)) \<noteq> ex)
            (subscribers_of s topic)"
    by (auto simp add: recipients_def intro: filter_cong)
  moreover have "distinct (subscribers_of s topic) \<longrightarrow> distinct (recipients s topic ex)"
    by (simp add: recipients_def)
  ultimately show ?thesis using publish_eq by blast
qed

lemmas chat_defs = chat_room_def handleSubscribe_def subscribers_of_def recipients_def

theorem publish_reaches_recipients_witness:
  "subscribers_of chat_room ''chat'' = [1, 2] \<and>
   set (subscribers_of chat_room ''chat'') \<subseteq> set (clients chat_room) \<and>
   distinct (subscribers_of chat_room ''chat'') \<and>
   1 \<in> set (clients chat_room) \<and> Some ''client_1'' = Some (cd_id (clientData chat_room 1)) \<and>
   1 \<notin> set (recipients chat_room ''chat'' (Some ''client_1'')) \<and>
   recipients chat_room ''chat'' (Some ''client_1'') = [2] \<and>
   publish chat_room ''chat'' (JStr ''hello'') (Some ''client_1'')
     = (chat_room\<lparr>effects := effects chat_room @ [Send 2 (Publish_msg ''chat'' (JStr ''hello''))]\<rparr>, 1) \<and>
   subscribers_of chat_room ''news'' = [] \<and>
   publish chat_room ''news'' (JStr ''hello'') (Some ''client_1'') = (chat_room, 0)"
proof -
  have h1: "subscribers_of chat_room ''chat'' = [1, 2]"
    by (simp add: sample_defs handler_defs event_defs chat_defs)
  have h2: "clients chat_room = [1, 2]"
    by (simp add: sample_defs handler_defs event_defs chat_defs)
  have h3: "cd_id (clientData chat_room 1) = ''client_1'' \<and> cd_id (clientData chat_room 2) = ''client_2''"
    by (simp add: sample_defs handler_defs event_defs chat_defs)
  have h4: "readyState chat_room 1 = OPEN \<and> readyState chat_room 2 = OPEN"
    by (simp add: sample_defs handler_defs event_defs chat_defs)
  have h5: "subscribers_of chat_room ''news'' = []"
    by (simp add: sample_defs handler_defs event_defs chat_defs)
  note th = publish_reaches_recipients [of chat_room "''chat''" "JStr ''hello''" "Some ''client_1''"]
  note th' = publish_reaches_recipients [of chat_room "''news''" "JStr ''hello''" "Some ''client_1''"]
  from th h1 h2 h3 have r: "recipients chat_room ''chat'' (Some ''client_1'')
        = filter (\<lambda>w. readyState chat_room w = OPEN \<and> Some (cd_id (clientData chat_room w)) \<noteq> Some ''client_1'')
            (subscribers_of chat_room ''chat'')"
    by simp
  have r': "recipients chat_room ''chat'' (Some ''client_1'') = [2]"
    unfolding r using h1 h3 h4 by simp
  from th have p: "publish chat_room ''chat'' (JStr ''hello'') (Some ''client_1'')
     = (chat_room\<lparr>effects := effects chat_room @ map (\<lambda>w. Send w (Publish_msg ''chat'' (JStr ''hello'')))
           (recipients chat_room ''chat'' (Some ''client_1''))\<rparr>,
        length (recipients chat_room ''chat'' (Some ''client_1'')))"
    by (rule conjunct1)
  from th' h5 have p': "publish chat_room ''news'' (JStr ''hello'') (Some ''client_1'') = (chat_room, 0)"
    by blast
  show ?thesis
    using h1 h2 h3 h5 p p' r' by simp
qed

subsection \<open>Disconnection\<close>

lemma map_of_unsubscribe_topic:
  "map_of (unsubscribe_topic w t subs) t'
     = (if t' = t then without_socket w (map_of subs t) else map_of subs t')"
  by (simp add: unsubscribe_topic_def without_socket_def delete_conv' update_conv'
      split: option.split)

lemma without_socket_idem: "without_socket w (without_socket w entry) = without_socket w entry"
  by (simp add: without_socket_def set_delete_def split: option.split)

lemma map_of_fold_unsubscribe_topic:
  "map_of (fold (unsubscribe_topic w) topics subs) t
     = (if t \<in> set topics then without_socket w (map_of subs t) else map_of subs t)"
proof (induction topics arbitrary: subs)
  case Nil
  show ?case by simp
next
  case (Cons a topics)
  show ?case
    by (simp add: Cons.IH map_of_unsubscribe_topic without_socket_idem)
qed

lemma not_in_without_socket:
  "without_socket w entry = Some sockets \<Longrightarrow> w \<notin> set sockets \<and> sockets \<noteq> []"
  by (auto simp add: without_socket_def set_delete_def split: option.splits if_splits)

lemma cleanup_streams_fields:
  "clients (cleanup_streams cid sts s) = clients s \<and>
   subscriptions (cleanup_streams cid sts s) = subscriptions s \<and>
   clientData (cleanup_streams cid sts s) = clientData s \<and>
   readyState (cleanup_streams cid sts s) = readyState s \<and>
   connectionCount (cleanup_streams cid sts s) = connectionCount s"
  by (induction cid sts s rule: cleanup_streams.induct) (simp_all add: emit_def)

lemma delete_as_filter: "AList.delete k al = filter (\<lambda>p. fst p \<noteq> k) al"
  by (induction al) auto

lemma streams_cleanup_streams:
  "streams (cleanup_streams cid sts s)
     = filter (\<lambda>p. fst p \<notin> fst ` {q \<in> set sts. st_clientId (snd q) = cid}) (streams s)"
proof (induction cid sts s rule: cleanup_streams.induct)
  case (1 cid s)
  show ?case by simp
next
  case (2 cid streamId st rest s)
  show ?case
  proof (cases "st_clientId st = cid")
    case True
    have "{q. (q = (streamId, st) \<or> q \<in> set rest) \<and> st_clientId (snd q) = cid}
            = insert (streamId, st) {q \<in> set rest. st_clientId (snd q) = cid}"
      using True by auto
    with True 2 show ?thesis
      by (simp add: emit_def delete_as_filter conj_commute)
  next
    case False
    have "{q. (q = (streamId, st) \<or> q \<in> set rest) \<and> st_clientId (snd q) = cid}
            = {q \<in> set rest. st_clientId (snd q) = cid}"
      using False by auto
    with False 2 show ?thesis by simp
  qed
qed

lemma streams_cleanup_own:
  assumes "distinct (map fst (streams s))"
  shows "streams (cleanup_streams cid (streams s) s)
           = filter (\<lambda>p. st_clientId (snd p) \<noteq> cid) (streams s)"
proof -
  have "\<And>p. p \<in> set (streams s) \<Longrightarrow>
          (fst p \<notin> fst ` {q \<in> set (streams s). st_clientId (snd q) = cid}) = (st_clientId (snd p) \<noteq> cid)"
  proof -
    fix p assume p: "p \<in> set (streams s)"
    show "(fst p \<notin> fst ` {q \<in> set (streams s). st_clientId (snd q) = cid}) = (st_clientId (snd p) \<noteq> cid)"
    proof
      assume "fst p \<notin> fst ` {q \<in> set (streams s). st_clientId (snd q) = cid}"
      with p show "st_clientId (snd p) \<noteq> cid" by force
    next
      assume n: "st_clientId (snd p) \<noteq> cid"
      show "fst p \<notin> fst ` {q \<in> set (streams s). st_clientId (snd q) = cid}"
      proof
        assume "fst p \<in> fst ` {q \<in> set (streams s). st_clientId (snd q) = cid}"
        then obtain q where q: "q \<in> set (streams s)" "st_clientId (snd q) = cid" "fst q = fst p"
          by auto
        from assms p q(1) q(3) have "q = p"
          by (metis eq_key_imp_eq_value prod.collapse)
        with q(2) n show False by simp
      qed
    qed
  qed
  then show ?thesis
    by (simp add: streams_cleanup_streams cong: filter_cong)
qed

lemma map_of_filter_owner:
  assumes "distinct (map fst al)"
  shows "map_of (filter (\<lambda>p. P (snd p)) al) k
           = (case map_of al k of None \<Rightarrow> None | Some v \<Rightarrow> if P v then Some v else None)"
  using assms
proof (induction al)
  case Nil
  show ?case by simp
next
  case (Cons a al)
  obtain k' v' where a: "a = (k', v')" by (cases a)
  from Cons.prems have d: "distinct (map fst al)" and n: "k' \<notin> fst ` set al" by (simp_all add: a)
  from n have m: "map_of al k' = None" by (simp add: map_of_eq_None_iff)
  show ?case
    using Cons.IH [OF d] m by (auto simp add: a split: option.split)
qed

lemma handleClientDisconnection_fields:
  "subscriptions (handleClientDisconnection s w)
     = fold (unsubscribe_topic w) (cd_subscriptions (clientData s w)) (subscriptions s) \<and>
   clients (handleClientDisconnection s w) = set_delete w (clients s) \<and>
   connectionCount (handleClientDisconnection s w) = connectionCount s - 1 \<and>
   clientData (handleClientDisconnection s w) = clientData s \<and>
   readyState (handleClientDisconnection s w) = readyState s"
  by (simp add: handleClientDisconnection_def Let_def emit_def cleanup_streams_fields)

lemma streams_handleClientDisconnection:
  assumes "distinct (map fst (streams s))"
  shows "streams (handleClientDisconnection s w)
           = filter (\<lambda>p. st_clientId (snd p) \<noteq> cd_id (clientData s w)) (streams s)"
proof -
  define s1 where "s1 = s\<lparr>subscriptions := fold (unsubscribe_topic w) (cd_subscriptions (clientData s w)) (subscriptions s)\<rparr>"
  have d: "distinct (map fst (streams s1))" using assms by (simp add: s1_def)
  have "streams (handleClientDisconnection s w) = streams (cleanup_streams (cd_id (clientData s w)) (streams s1) s1)"
    by (simp add: handleClientDisconnection_def Let_def emit_def s1_def)
  also have "\<dots> = filter (\<lambda>p. st_clientId (snd p) \<noteq> cd_id (clientData s w)) (streams s1)"
    by (rule streams_cleanup_own [OF d])
  finally show ?thesis by (simp add: s1_def)
qed

text \<open>
  Claim C7. Let \<open>s'\<close> be the server after the disconnection of socket \<open>w\<close>. Every topic
  in the connection's subscription set has lost \<open>w\<close> from its subscribers, and its entry is
  deleted when no subscriber is left; the other topics are untouched. When the index and
  the connection's own set agree (the index holds \<open>w\<close> only under topics of that set, as
  subscribe and unsubscribe keep it), \<open>w\<close> is a subscriber of no topic at all. The stream
  table has lost exactly the sessions owned by the connection. The registry no longer holds
  \<open>w\<close>, so a later \<open>publish\<close> to any topic hands out frames to its recipients only,
  and \<open>w\<close> is not among them; and a later \<open>sendStreamData\<close> to a stream the connection
  owned returns \<open>false\<close> and sends nothing. The stream table is a map: its keys are
  distinct.
\<close>

theorem disconnection_cascade:
  fixes s :: server and w :: ws
  defines "s' \<equiv> handleClientDisconnection s w"
  assumes "distinct (map fst (streams s))"
  shows "(\<forall>topic. map_of (subscriptions s') topic
            = (if topic \<in> set (cd_subscriptions (clientData s w))
               then without_socket w (map_of (subscriptions s) topic)
               else map_of (subscriptions s) topic)) \<and>
         (\<forall>topic \<in> set (cd_subscriptions (clientData s w)).
            w \<notin> set (subscribers_of s' topic) \<and> map_of (subscriptions s') topic \<noteq> Some []) \<and>
         ((\<forall>topic. w \<in> set (subscribers_of s topic) \<longrightarrow> topic \<in> set (cd_subscriptions (clientData s w)))
            \<longrightarrow> (\<forall>topic. w \<notin> set (subscribers_of s' topic))) \<and>
         streams s' = filter (\<lambda>p. st_clientId (snd p) \<noteq> cd_id (clientData s w)) (streams s) \<and>
         w \<notin> set (clients s') \<and>
         (\<forall>topic d ex. w \<notin> set (recipients s' topic ex) \<and>
            effects (fst (publish s' topic d ex))
              = effects s' @ map (\<lambda>v. Send v (Publish_msg topic d)) (recipients s' topic ex)) \<and>
         (\<forall>streamId st d n.
            map_of (streams s) streamId = Some st \<and> st_clientId st = cd_id (clientData s w)
              \<longrightarrow> sendStreamData s' streamId d n = (False, s'))"
proof -
  note f = handleClientDisconnection_fields [of s w, folded s'_def]
  have subs: "\<And>topic. map_of (subscriptions s') topic
            = (if topic \<in> set (cd_subscriptions (clientData s w))
               then without_socket w (map_of (subscriptions s) topic)
               else map_of (subscriptions s) topic)"
    using f by (simp add: map_of_fold_unsubscribe_topic)
  have own: "\<forall>topic \<in> set (cd_subscriptions (clientData s w)).
            w \<notin> set (subscribers_of s' topic) \<and> map_of (subscriptions s') topic \<noteq> Some []"
  proof
    fix topic assume t: "topic \<in> set (cd_subscriptions (clientData s w))"
    show "w \<notin> set (subscribers_of s' topic) \<and> map_of (subscriptions s') topic \<noteq> Some []"
    proof (cases "without_socket w (map_of (subscriptions s) topic)")
      case None
      with t subs show ?thesis by (simp add: subscribers_of_def)
    next
      case (Some sockets)
      from not_in_without_socket [OF Some] Some t subs show ?thesis
        by (simp add: subscribers_of_def)
    qed
  qed
  have all: "(\<forall>topic. w \<in> set (subscribers_of s topic) \<longrightarrow> topic \<in> set (cd_subscriptions (clientData s w)))
            \<longrightarrow> (\<forall>topic. w \<notin> set (subscribers_of s' topic))"
  proof (intro impI allI)
    fix topic
    assume c: "\<forall>topic. w \<in> set (subscribers_of s topic) \<longrightarrow> topic \<in> set (cd_subscriptions (clientData s w))"
    show "w \<notin> set (subscribers_of s' topic)"
    proof (cases "topic \<in> set (cd_subscriptions (clientData s w))")
      case True
      with own show ?thesis by blast
    next
      case False
      with c have "w \<notin> set (subscribers_of s topic)" by blast
      with False subs show ?thesis by (simp add: subscribers_of_def)
    qed
  qed
  have st: "streams s' = filter (\<lambda>p. st_clientId (snd p) \<noteq> cd_id (clientData s w)) (streams s)"
    unfolding s'_def by (rule streams_handleClientDisconnection [OF assms(2)])
  have cl: "w \<notin> set (clients s')"
    using f by (simp add: set_delete_def)
  have pub: "\<forall>topic d ex. w \<notin> set (recipients s' topic ex) \<and>
            effects (fst (publish s' topic d ex))
              = effects s' @ map (\<lambda>v. Send v (Publish_msg topic d)) (recipients s' topic ex)"
    using cl by (simp add: publish_eq recipients_def)
  have snd: "\<forall>streamId st d n.
            map_of (streams s) streamId = Some st \<and> st_clientId st = cd_id (clientData s w)
              \<longrightarrow> sendStreamData s' streamId d n = (False, s')"
  proof (intro allI impI)
    fix streamId st d n
    assume a: "map_of (streams s) streamId = Some st \<and> st_clientId st = cd_id (clientData s w)"
    have "map_of (streams s') streamId = None"
      unfolding st
      using a map_of_filter_owner [OF assms(2), of "\<lambda>x. st_clientId x \<noteq> cd_id (clientData s w)" streamId]
      by simp
    then show "sendStreamData s' streamId d n = (False, s')"
      by (simp add: sendStreamData_def)
  qed
  from subs own all st cl pub snd show ?thesis by blast
qed

lemmas studio_defs = studio_def chat_room_def handleSubscribe_def handleStreamStart_def
  subscribers_of_def

theorem disconnection_cascade_witness:
  "distinct (map fst (streams studio)) \<and>
   ''chat'' \<in> set (cd_subscriptions (clientData studio 1)) \<and>
   subscribers_of studio ''chat'' = [1, 2] \<and>
   map_of (streams studio) ''cam''
     = Some \<lparr>st_clientId = ''client_1'', st_ws = 1, st_streamType = ''video'', st_startedAt = 20\<rparr> \<and>
   cd_id (clientData studio 1) = ''client_1'' \<and>
   map_of (subscriptions (handleClientDisconnection studio 1)) ''chat'' = Some [2] \<and>
   1 \<notin> set (subscribers_of (handleClientDisconnection studio 1) ''chat'') \<and>
   1 \<notin> set (subscribers_of (handleClientDisconnection studio 1) ''news'') \<and>
   map fst (streams (handleClientDisconnection studio 1)) = [''screen''] \<and>
   1 \<notin> set (recipients (handleClientDisconnection studio 1) ''chat'' None) \<and>
   sendStreamData (handleClientDisconnection studio 1) ''cam'' JNull None
     = (False, handleClientDisconnection studio 1)"
proof -
  have h1: "distinct (map fst (streams studio))"
    by (simp add: sample_defs handler_defs event_defs studio_defs)
  have h2: "cd_subscriptions (clientData studio 1) = [''chat'']"
    by (simp add: sample_defs handler_defs event_defs studio_defs)
  have h3: "subscriptions studio = [(''chat'', [1, 2])]"
    by (simp add: sample_defs handler_defs event_defs studio_defs)
  have h4: "map_of (streams studio) ''cam''
     = Some \<lparr>st_clientId = ''client_1'', st_ws = 1, st_streamType = ''video'', st_startedAt = 20\<rparr>"
    by (simp add: sample_defs handler_defs event_defs studio_defs)
  have h5: "cd_id (clientData studio 1) = ''client_1''"
    by (simp add: sample_defs handler_defs event_defs studio_defs)
  have h6: "map (\<lambda>p. (fst p, st_clientId (snd p))) (streams studio)
              = [(''cam'', ''client_1''), (''mic'', ''client_1''), (''screen'', ''client_2'')]"
    by (simp add: sample_defs handler_defs event_defs studio_defs)
  have h7: "\<forall>topic. 1 \<in> set (subscribers_of studio topic) \<longrightarrow> topic \<in> set (cd_subscriptions (clientData studio 1))"
    using h2 h3 by (simp add: subscribers_of_def)
  note th = disconnection_cascade [OF h1, of 1]
  from th [THEN conjunct1, THEN spec, of "''chat''"] h2
  have a: "map_of (subscriptions (handleClientDisconnection studio 1)) ''chat''
      = without_socket 1 (map_of (subscriptions studio) ''chat'')"
    by simp
  have a': "map_of (subscriptions (handleClientDisconnection studio 1)) ''chat'' = Some [2]"
    unfolding a by (simp add: h3 without_socket_def set_delete_def)
  from th h2 have b: "1 \<notin> set (subscribers_of (handleClientDisconnection studio 1) ''chat'')"
    by simp
  from th h7 have c: "1 \<notin> set (subscribers_of (handleClientDisconnection studio 1) ''news'')"
    by blast
  from th have d: "streams (handleClientDisconnection studio 1)
      = filter (\<lambda>p. st_clientId (snd p) \<noteq> cd_id (clientData studio 1)) (streams studio)"
    by blast
  have "map (\<lambda>p. (fst p, st_clientId (snd p))) (streams (handleClientDisconnection studio 1))
      = filter (\<lambda>q. snd q \<noteq> ''client_1'') (map (\<lambda>p. (fst p, st_clientId (snd p))) (streams studio))"
    unfolding d h5 by (simp add: filter_map comp_def)
  then have "map fst (map (\<lambda>p. (fst p, st_clientId (snd p))) (streams (handleClientDisconnection studio 1)))
      = [''screen'']"
    unfolding h6 by simp
  then have d': "map fst (streams (handleClientDisconnection studio 1)) = [''screen'']"
    by (simp add: comp_def)
  from th have e: "1 \<notin> set (recipients (handleClientDisconnection studio 1) ''chat'' None)"
    by blast
  have h8: "st_clientId \<lparr>st_clientId = ''client_1'', st_ws = 1, st_streamType = ''video'', st_startedAt = 20\<rparr>
              = cd_id (clientData studio 1)"
    using h5 by simp
  from th h4 h8 have g: "sendStreamData (handleClientDisconnection studio 1) ''cam'' JNull None
     = (False, handleClientDisconnection studio 1)"
    by blast
  from h1 h2 h3 h4 h5 a' b c d' e g show ?thesis
    by (simp add: subscribers_of_def)
qed

subsection \<open>Pending requests\<close>

text \<open>
  The request machinery is judged by what \<open>req_view\<close> shows of a state: a handler that
  leaves the view unchanged keeps the invariant \<open>requests_ok\<close>.
\<close>

lemma settles_is_settlement: "settles p e \<Longrightarrow> is_settlement e"
  by (cases e) simp_all

lemma settled_filter: "settled p (filter is_settlement effs) = settled p effs"
proof -
  have "filter (\<lambda>x. is_settlement x \<and> settles p x) effs = filter (settles p) effs"
    by (rule filter_cong) (auto dest: settles_is_settlement)
  then show ?thesis by (simp add: settled_def)
qed

lemma requests_ok_view:
  assumes "req_view s' = req_view s"
  shows "requests_ok s' = requests_ok s"
proof -
  from assms have f: "pendingRequests s' = pendingRequests s" "timers s' = timers s"
    "nextTimer s' = nextTimer s" "nextPromise s' = nextPromise s"
    "filter is_settlement (effects s') = filter is_settlement (effects s)"
    by (simp_all add: req_view_def)
  have "\<And>p. settled p (effects s') = settled p (effects s)"
    using f(5) settled_filter by metis
  then show ?thesis
    by (simp add: requests_ok_def f)
qed

lemma settled_append: "settled p (xs @ ys) = settled p xs + settled p ys"
  by (simp add: settled_def)

lemma requests_okI:
  assumes "distinct (map fst (pendingRequests s))"
    and "distinct (map fst (timers s))"
    and "\<And>t. t \<in> set (timers s) \<Longrightarrow> fst t < nextTimer s"
    and "\<And>h due requestId p. (h, due, Request_timeout requestId p) \<in> set (timers s) \<Longrightarrow>
           p < nextPromise s \<and> settled p (effects s) = 0"
    and "\<And>h due requestId h' due' requestId' p.
           (h, due, Request_timeout requestId p) \<in> set (timers s) \<Longrightarrow>
           (h', due', Request_timeout requestId' p) \<in> set (timers s) \<Longrightarrow> h = h'"
    and "\<And>requestId req. map_of (pendingRequests s) requestId = Some req \<Longrightarrow>
           \<exists>due. (pr_timeout req, due, Request_timeout requestId (pr_promise req)) \<in> set (timers s)"
    and "\<And>p. settled p (effects s) \<le> 1"
    and "\<And>p. nextPromise s \<le> p \<Longrightarrow> settled p (effects s) = 0"
  shows "requests_ok s"
  unfolding requests_ok_def using assms by blast

lemma requests_okD:
  assumes "requests_ok s"
  shows "distinct (map fst (pendingRequests s))"
    and "distinct (map fst (timers s))"
    and "\<And>t. t \<in> set (timers s) \<Longrightarrow> fst t < nextTimer s"
    and "\<And>h due requestId p. (h, due, Request_timeout requestId p) \<in> set (timers s) \<Longrightarrow>
           p < nextPromise s \<and> settled p (effects s) = 0"
    and "\<And>h due requestId h' due' requestId' p.
           (h, due, Request_timeout requestId p) \<in> set (timers s) \<Longrightarrow>
           (h', due', Request_timeout requestId' p) \<in> set (timers s) \<Longrightarrow> h = h'"
    and "\<And>requestId req. map_of (pendingRequests s) requestId = Some req \<Longrightarrow>
           \<exists>due. (pr_timeout req, due, Request_timeout requestId (pr_promise req)) \<in> set (timers s)"
    and "\<And>p. settled p (effects s) \<le> 1"
    and "\<And>p. nextPromise s \<le> p \<Longrightarrow> settled p (effects s) = 0"
  using assms unfolding requests_ok_def by blast+

text \<open>Disarming timers and dropping pending entries.\<close>

lemma requests_ok_restrict:
  assumes ok: "requests_ok s"
    and sub: "set ts \<subseteq> set (timers s)"
    and dt: "distinct (map fst ts)"
    and dp: "distinct (map fst pend)"
    and armed: "\<And>requestId req. map_of pend requestId = Some req \<Longrightarrow>
        \<exists>due. (pr_timeout req, due, Request_timeout requestId (pr_promise req)) \<in> set ts"
  shows "requests_ok (s\<lparr>pendingRequests := pend, timers := ts\<rparr>)"
proof -
  define s' where "s' = s\<lparr>pendingRequests := pend, timers := ts\<rparr>"
  have f: "pendingRequests s' = pend" "timers s' = ts" "nextTimer s' = nextTimer s"
    "nextPromise s' = nextPromise s" "effects s' = effects s"
    by (simp_all add: s'_def)
  note d = requests_okD [OF ok]
  have "requests_ok s'"
  proof (rule requests_okI)
    show "distinct (map fst (pendingRequests s'))" by (simp add: f dp)
    show "distinct (map fst (timers s'))" by (simp add: f dt)
    show "\<And>t. t \<in> set (timers s') \<Longrightarrow> fst t < nextTimer s'"
      using sub d(3) by (auto simp: f)
    show "\<And>h due requestId p. (h, due, Request_timeout requestId p) \<in> set (timers s') \<Longrightarrow>
           p < nextPromise s' \<and> settled p (effects s') = 0"
      unfolding f using sub d(4) by blast
    show "\<And>h due requestId h' due' requestId' p.
           (h, due, Request_timeout requestId p) \<in> set (timers s') \<Longrightarrow>
           (h', due', Request_timeout requestId' p) \<in> set (timers s') \<Longrightarrow> h = h'"
      unfolding f using sub d(5) by blast
    show "\<And>requestId req. map_of (pendingRequests s') requestId = Some req \<Longrightarrow>
           \<exists>due. (pr_timeout req, due, Request_timeout requestId (pr_promise req)) \<in> set (timers s')"
      unfolding f by (rule armed)
    show "\<And>p. settled p (effects s') \<le> 1" unfolding f by (rule d(7))
    show "\<And>p. nextPromise s' \<le> p \<Longrightarrow> settled p (effects s') = 0" unfolding f by (rule d(8))
  qed
  then show ?thesis by (simp add: s'_def)
qed

lemma requests_ok_settle:
  assumes ok: "requests_ok s"
    and fresh: "settled p (effects s) = 0"
    and alloc: "p < nextPromise s"
    and lone: "\<And>h due requestId. (h, due, Request_timeout requestId p) \<notin> set (timers s)"
    and e: "settled p [e] = 1" "\<And>q. q \<noteq> p \<Longrightarrow> settled q [e] = 0"
  shows "requests_ok (s\<lparr>effects := effects s @ [e]\<rparr>)"
proof -
  define s' where "s' = s\<lparr>effects := effects s @ [e]\<rparr>"
  have f: "pendingRequests s' = pendingRequests s" "timers s' = timers s" "nextTimer s' = nextTimer s"
    "nextPromise s' = nextPromise s"
    by (simp_all add: s'_def)
  have s: "\<And>q. settled q (effects s') = (if q = p then 1 else settled q (effects s))"
    using fresh e by (simp add: s'_def settled_append)
  note d = requests_okD [OF ok]
  have "requests_ok s'"
  proof (rule requests_okI)
    show "distinct (map fst (pendingRequests s'))" by (simp add: f d(1))
    show "distinct (map fst (timers s'))" by (simp add: f d(2))
    show "\<And>t. t \<in> set (timers s') \<Longrightarrow> fst t < nextTimer s'"
      using d(3) by (simp add: f)
    show "\<And>h due requestId q. (h, due, Request_timeout requestId q) \<in> set (timers s') \<Longrightarrow>
           q < nextPromise s' \<and> settled q (effects s') = 0"
    proof -
      fix h due requestId q
      assume a: "(h, due, Request_timeout requestId q) \<in> set (timers s')"
      then have "q \<noteq> p" using lone by (auto simp: f)
      with a d(4) show "q < nextPromise s' \<and> settled q (effects s') = 0"
        by (simp add: f s)
    qed
    show "\<And>h due requestId h' due' requestId' p.
           (h, due, Request_timeout requestId p) \<in> set (timers s') \<Longrightarrow>
           (h', due', Request_timeout requestId' p) \<in> set (timers s') \<Longrightarrow> h = h'"
      unfolding f using d(5) by blast
    show "\<And>requestId req. map_of (pendingRequests s') requestId = Some req \<Longrightarrow>
           \<exists>due. (pr_timeout req, due, Request_timeout requestId (pr_promise req)) \<in> set (timers s')"
      unfolding f by (rule d(6))
    show "\<And>q. settled q (effects s') \<le> 1" using d(7) by (simp add: s)
    show "\<And>q. nextPromise s' \<le> q \<Longrightarrow> settled q (effects s') = 0"
      using d(8) alloc by (auto simp add: s f)
  qed
  then show ?thesis by (simp add: s'_def)
qed

lemma req_view_sendToClient [simp]: "req_view (sendToClient s w m) = req_view s"
  by (simp add: req_view_def sendToClient_def)

lemma req_view_emit [simp]: "req_view (emit s n a) = req_view s"
  by (simp add: req_view_def emit_def)

lemma req_view_ws_close [simp]: "req_view (ws_close s w c r) = req_view s"
  by (simp add: req_view_def ws_close_def)

text \<open>A request completes: its timer goes, its entry goes, its promise is settled.\<close>

lemma requests_ok_complete:
  assumes ok: "requests_ok s"
    and tm: "(h, due, Request_timeout requestId p) \<in> set (timers s)"
    and e: "settled p [e] = 1" "\<And>q. q \<noteq> p \<Longrightarrow> settled q [e] = 0"
  shows "requests_ok (s\<lparr>timers := filter (\<lambda>t. fst t \<noteq> h) (timers s),
                         pendingRequests := AList.delete requestId (pendingRequests s),
                         effects := effects s @ [e]\<rparr>)"
proof -
  note d = requests_okD [OF ok]
  define s1 where "s1 = s\<lparr>pendingRequests := AList.delete requestId (pendingRequests s),
                           timers := filter (\<lambda>t. fst t \<noteq> h) (timers s)\<rparr>"
  have ok1: "requests_ok s1"
    unfolding s1_def
  proof (rule requests_ok_restrict [OF ok])
    show "set (filter (\<lambda>t. fst t \<noteq> h) (timers s)) \<subseteq> set (timers s)" by auto
    show "distinct (map fst (filter (\<lambda>t. fst t \<noteq> h) (timers s)))"
      using d(2) by (rule distinct_map_filter)
    show "distinct (map fst (AList.delete requestId (pendingRequests s)))"
      using d(1) by (rule distinct_delete)
    fix rid req
    assume a: "map_of (AList.delete requestId (pendingRequests s)) rid = Some req"
    then have ne: "rid \<noteq> requestId" and b: "map_of (pendingRequests s) rid = Some req"
      by (auto simp add: delete_conv' split: if_splits)
    from d(6) [OF b] obtain due' where
      c: "(pr_timeout req, due', Request_timeout rid (pr_promise req)) \<in> set (timers s)" by blast
    have "pr_timeout req \<noteq> h"
    proof
      assume "pr_timeout req = h"
      with c tm d(2) have "(due', Request_timeout rid (pr_promise req)) = (due, Request_timeout requestId p)"
        by (metis eq_key_imp_eq_value)
      with ne show False by simp
    qed
    with c show "\<exists>due. (pr_timeout req, due, Request_timeout rid (pr_promise req))
                    \<in> set (filter (\<lambda>t. fst t \<noteq> h) (timers s))"
      by auto
  qed
  have f: "timers s1 = filter (\<lambda>t. fst t \<noteq> h) (timers s)" "effects s1 = effects s"
    "nextPromise s1 = nextPromise s"
    by (simp_all add: s1_def)
  have "requests_ok (s1\<lparr>effects := effects s1 @ [e]\<rparr>)"
  proof (rule requests_ok_settle [OF ok1 _ _ _ e])
    show "settled p (effects s1) = 0" using d(4) [OF tm] by (simp add: f)
    show "p < nextPromise s1" using d(4) [OF tm] by (simp add: f)
    fix h' due' rid
    show "(h', due', Request_timeout rid p) \<notin> set (timers s1)"
    proof
      assume "(h', due', Request_timeout rid p) \<in> set (timers s1)"
      then have "(h', due', Request_timeout rid p) \<in> set (timers s)" and "h' \<noteq> h"
        by (auto simp: f)
      with d(5) [OF _ tm] show False by blast
    qed
  qed
  moreover have "s1\<lparr>effects := effects s1 @ [e]\<rparr>
      = s\<lparr>timers := filter (\<lambda>t. fst t \<noteq> h) (timers s),
           pendingRequests := AList.delete requestId (pendingRequests s),
           effects := effects s @ [e]\<rparr>"
    unfolding s1_def by (cases s) simp
  ultimately show ?thesis by simp
qed

lemma settled_Resolve: "settled p [Resolve p d] = 1" "q \<noteq> p \<Longrightarrow> settled q [Resolve p d] = 0"
  by (simp_all add: settled_def)

lemma settled_Reject: "settled p [Reject p e] = 1" "q \<noteq> p \<Longrightarrow> settled q [Reject p e] = 0"
  by (simp_all add: settled_def)

lemma requests_ok_handleResponse:
  assumes ok: "requests_ok s"
  shows "requests_ok (handleResponse s w requestId success d err)"
proof (cases "map_of (pendingRequests s) requestId")
  case None
  then show ?thesis using ok by (simp add: handleResponse_def)
next
  case (Some req)
  from requests_okD(6) [OF ok Some] obtain due where
    tm: "(pr_timeout req, due, Request_timeout requestId (pr_promise req)) \<in> set (timers s)" by blast
  show ?thesis
  proof (cases success)
    case True
    from requests_ok_complete [OF ok tm settled_Resolve] True Some show ?thesis
      by (simp add: handleResponse_def Let_def clearTimeout_def)
  next
    case False
    from requests_ok_complete [OF ok tm settled_Reject] False Some show ?thesis
      by (simp add: handleResponse_def Let_def clearTimeout_def)
  qed
qed

lemma requests_ok_clear_other:
  assumes ok: "requests_ok s"
    and tm: "(h, due, Auth_failed_close w) \<in> set (timers s)"
  shows "requests_ok (clearTimeout s h)"
proof -
  note d = requests_okD [OF ok]
  have "requests_ok (s\<lparr>pendingRequests := pendingRequests s, timers := filter (\<lambda>t. fst t \<noteq> h) (timers s)\<rparr>)"
  proof (rule requests_ok_restrict [OF ok])
    show "set (filter (\<lambda>t. fst t \<noteq> h) (timers s)) \<subseteq> set (timers s)" by auto
    show "distinct (map fst (filter (\<lambda>t. fst t \<noteq> h) (timers s)))"
      using d(2) by (rule distinct_map_filter)
    show "distinct (map fst (pendingRequests s))" by (rule d(1))
    fix rid req
    assume b: "map_of (pendingRequests s) rid = Some req"
    from d(6) [OF b] obtain due' where
      c: "(pr_timeout req, due', Request_timeout rid (pr_promise req)) \<in> set (timers s)" by blast
    have "pr_timeout req \<noteq> h"
    proof
      assume "pr_timeout req = h"
      with c tm d(2) have "(due', Request_timeout rid (pr_promise req)) = (due, Auth_failed_close w)"
        by (metis eq_key_imp_eq_value)
      then show False by simp
    qed
    with c show "\<exists>due. (pr_timeout req, due, Request_timeout rid (pr_promise req))
                    \<in> set (filter (\<lambda>t. fst t \<noteq> h) (timers s))"
      by auto
  qed
  then show ?thesis by (simp add: clearTimeout_def)
qed

lemma requests_ok_timer_event:
  assumes ok: "requests_ok s"
  shows "requests_ok (timer_event s h)"
proof (cases "map_of (timers s) h")
  case None
  then show ?thesis using ok by (simp add: timer_event_def)
next
  case (Some entry)
  obtain due cb where entry: "entry = (due, cb)" by (cases entry)
  from Some entry have tm: "(h, due, cb) \<in> set (timers s)" by (simp add: map_of_SomeD)
  show ?thesis
  proof (cases cb)
    case (Request_timeout requestId p)
    from requests_ok_complete [OF ok tm [unfolded Request_timeout] settled_Reject]
    show ?thesis using Some entry Request_timeout
      by (simp add: timer_event_def Let_def clearTimeout_def request_timeout_def)
  next
    case (Auth_failed_close w)
    have "req_view (auth_failed_close (clearTimeout s h) w) = req_view (clearTimeout s h)"
      by (simp add: auth_failed_close_def)
    from requests_ok_view [OF this] requests_ok_clear_other [OF ok tm [unfolded Auth_failed_close]]
    have "requests_ok (auth_failed_close (clearTimeout s h) w)"
      by simp
    then show ?thesis using Some entry Auth_failed_close
      by (simp add: timer_event_def Let_def)
  qed
qed

text \<open>Arming a timer, allocating a promise, entering a pending request.\<close>

lemma requests_ok_arm:
  assumes ok: "requests_ok s"
    and cb: "\<And>requestId p. cb = Request_timeout requestId p \<Longrightarrow>
               p < nextPromise s \<and> settled p (effects s) = 0 \<and>
               (\<forall>h due' rid. (h, due', Request_timeout rid p) \<notin> set (timers s))"
  shows "requests_ok (snd (setTimeout s due cb))"
proof -
  define s' where "s' = snd (setTimeout s due cb)"
  have f: "pendingRequests s' = pendingRequests s" "timers s' = timers s @ [(nextTimer s, due, cb)]"
    "nextTimer s' = Suc (nextTimer s)" "nextPromise s' = nextPromise s" "effects s' = effects s"
    by (simp_all add: s'_def setTimeout_def)
  note d = requests_okD [OF ok]
  have fresh: "nextTimer s \<notin> fst ` set (timers s)"
    using d(3) by fastforce
  have "requests_ok s'"
  proof (rule requests_okI)
    show "distinct (map fst (pendingRequests s'))" by (simp add: f d(1))
    show "distinct (map fst (timers s'))" using d(2) fresh by (simp add: f)
    show "\<And>t. t \<in> set (timers s') \<Longrightarrow> fst t < nextTimer s'"
      using d(3) by (auto simp add: f less_Suc_eq)
    show "\<And>h due requestId p. (h, due, Request_timeout requestId p) \<in> set (timers s') \<Longrightarrow>
           p < nextPromise s' \<and> settled p (effects s') = 0"
      unfolding f using d(4) cb by auto
    show "\<And>h due requestId h' due' requestId' p.
           (h, due, Request_timeout requestId p) \<in> set (timers s') \<Longrightarrow>
           (h', due', Request_timeout requestId' p) \<in> set (timers s') \<Longrightarrow> h = h'"
      unfolding f using d(5) cb by auto
    show "\<And>requestId req. map_of (pendingRequests s') requestId = Some req \<Longrightarrow>
           \<exists>due. (pr_timeout req, due, Request_timeout requestId (pr_promise req)) \<in> set (timers s')"
      unfolding f using d(6) by fastforce
    show "\<And>p. settled p (effects s') \<le> 1" unfolding f by (rule d(7))
    show "\<And>p. nextPromise s' \<le> p \<Longrightarrow> settled p (effects s') = 0" unfolding f by (rule d(8))
  qed
  then show ?thesis by (simp add: s'_def)
qed

lemma requests_ok_allocate:
  assumes ok: "requests_ok s"
  shows "requests_ok (s\<lparr>nextPromise := Suc (nextPromise s)\<rparr>)"
proof -
  define s' where "s' = s\<lparr>nextPromise := Suc (nextPromise s)\<rparr>"
  have f: "pendingRequests s' = pendingRequests s" "timers s' = timers s"
    "nextTimer s' = nextTimer s" "nextPromise s' = Suc (nextPromise s)" "effects s' = effects s"
    by (simp_all add: s'_def)
  note d = requests_okD [OF ok]
  have "requests_ok s'"
  proof (rule requests_okI)
    show "distinct (map fst (pendingRequests s'))" by (simp add: f d(1))
    show "distinct (map fst (timers s'))" by (simp add: f d(2))
    show "\<And>t. t \<in> set (timers s') \<Longrightarrow> fst t < nextTimer s'"
      using d(3) by (simp add: f)
    show "\<And>h due requestId p. (h, due, Request_timeout requestId p) \<in> set (timers s') \<Longrightarrow>
           p < nextPromise s' \<and> settled p (effects s') = 0"
      unfolding f using d(4) by (auto simp add: less_Suc_eq)
    show "\<And>h due requestId h' due' requestId' p.
           (h, due, Request_timeout requestId p) \<in> set (timers s') \<Longrightarrow>
           (h', due', Request_timeout requestId' p) \<in> set (timers s') \<Longrightarrow> h = h'"
      unfolding f using d(5) by blast
    show "\<And>requestId req. map_of (pendingRequests s') requestId = Some req \<Longrightarrow>
           \<exists>due. (pr_timeout req, due, Request_timeout requestId (pr_promise req)) \<in> set (timers s')"
      unfolding f by (rule d(6))
    show "\<And>p. settled p (effects s') \<le> 1" unfolding f by (rule d(7))
    show "\<And>p. nextPromise s' \<le> p \<Longrightarrow> settled p (effects s') = 0"
      unfolding f using d(8) by simp
  qed
  then show ?thesis by (simp add: s'_def)
qed

lemma requests_ok_enter:
  assumes ok: "requests_ok s"
    and tm: "(h, due, Request_timeout requestId p) \<in> set (timers s)"
  shows "requests_ok (s\<lparr>pendingRequests :=
            AList.update requestId \<lparr>pr_promise = p, pr_timeout = h\<rparr> (pendingRequests s)\<rparr>)"
proof -
  note d = requests_okD [OF ok]
  have "requests_ok (s\<lparr>pendingRequests :=
            AList.update requestId \<lparr>pr_promise = p, pr_timeout = h\<rparr> (pendingRequests s),
          timers := timers s\<rparr>)"
  proof (rule requests_ok_restrict [OF ok])
    show "set (timers s) \<subseteq> set (timers s)" by simp
    show "distinct (map fst (timers s))" by (rule d(2))
    show "distinct (map fst (AList.update requestId \<lparr>pr_promise = p, pr_timeout = h\<rparr> (pendingRequests s)))"
      using d(1) by (rule distinct_update)
    fix rid req
    assume a: "map_of (AList.update requestId \<lparr>pr_promise = p, pr_timeout = h\<rparr> (pendingRequests s)) rid = Some req"
    show "\<exists>due. (pr_timeout req, due, Request_timeout rid (pr_promise req)) \<in> set (timers s)"
    proof (cases "rid = requestId")
      case True
      with a have "req = \<lparr>pr_promise = p, pr_timeout = h\<rparr>" by (simp add: update_conv')
      with tm True show ?thesis by auto
    next
      case False
      with a have "map_of (pendingRequests s) rid = Some req" by (simp add: update_conv')
      from d(6) [OF this] show ?thesis .
    qed
  qed
  then show ?thesis by simp
qed

lemma requests_ok_sendRequest_executor:
  assumes ok: "requests_ok s"
  shows "requests_ok (snd (sendRequest_executor s w requestId endpoint d timeout now))"
proof -
  note dd = requests_okD [OF ok]
  define s0 where "s0 = s\<lparr>nextPromise := Suc (nextPromise s)\<rparr>"
  define s1 where "s1 = snd (setTimeout s0 (now + timeout) (Request_timeout requestId (nextPromise s)))"
  define s2 where "s2 = s1\<lparr>pendingRequests :=
      AList.update requestId \<lparr>pr_promise = nextPromise s, pr_timeout = nextTimer s\<rparr> (pendingRequests s1)\<rparr>"
  have ok0: "requests_ok s0" unfolding s0_def by (rule requests_ok_allocate [OF ok])
  have ok1: "requests_ok s1"
    unfolding s1_def
  proof (rule requests_ok_arm [OF ok0])
    fix rid p
    assume "Request_timeout requestId (nextPromise s) = Request_timeout rid p"
    then have p: "p = nextPromise s" by simp
    have "\<And>h due' rid'. (h, due', Request_timeout rid' p) \<notin> set (timers s)"
      using dd(4) p by fastforce
    then show "p < nextPromise s0 \<and> settled p (effects s0) = 0 \<and>
               (\<forall>h due' rid. (h, due', Request_timeout rid p) \<notin> set (timers s0))"
      using dd(8) [of p] p by (simp add: s0_def)
  qed
  have "(nextTimer s, now + timeout, Request_timeout requestId (nextPromise s)) \<in> set (timers s1)"
    by (simp add: s1_def s0_def setTimeout_def)
  from requests_ok_enter [OF ok1 this] have ok2: "requests_ok s2" by (simp add: s2_def)
  have "snd (sendRequest_executor s w requestId endpoint d timeout now)
          = sendToClient s2 w (Request_msg requestId endpoint d)"
    by (simp add: sendRequest_executor_def Let_def s2_def s1_def s0_def setTimeout_def)
  with ok2 requests_ok_view [OF req_view_sendToClient] show ?thesis by simp
qed

lemma requests_ok_handleAuthentication:
  assumes ok: "requests_ok s"
  shows "requests_ok (handleAuthentication s w token now)"
proof (cases "enableAuthentication (config s) \<and> token \<noteq> Some (authToken (config s))")
  case True
  have "req_view (sendToClient s w (Auth_response False ''Invalid authentication token'')) = req_view s"
    by simp
  from requests_ok_view [OF this] ok
  have "requests_ok (sendToClient s w (Auth_response False ''Invalid authentication token''))" by simp
  from requests_ok_arm [OF this, of "Auth_failed_close w" "now + 1000"] True show ?thesis
    by (simp add: handleAuthentication_def Let_def)
next
  case False
  then have "req_view (handleAuthentication s w token now) = req_view s"
    by (auto simp add: handleAuthentication_def Let_def req_view_def sendToClient_def emit_def)
  from requests_ok_view [OF this] ok show ?thesis by simp
qed

lemma req_view_fold_close_if_open: "req_view (fold close_if_open sockets s) = req_view s"
  by (induction sockets arbitrary: s) (simp_all add: close_if_open_def)

lemma requests_ok_stop:
  assumes ok: "requests_ok s"
  shows "requests_ok (stop s)"
proof (cases "isRunning s")
  case False
  then show ?thesis using ok by (simp add: stop_def)
next
  case True
  note d = requests_okD [OF ok]
  define ts where "ts = filter (\<lambda>t. fst t \<notin> pr_timeout ` snd ` set (pendingRequests s)) (timers s)"
  define s1 where "s1 = s\<lparr>pendingRequests := [], timers := ts\<rparr>"
  have ok1: "requests_ok s1"
    unfolding s1_def
  proof (rule requests_ok_restrict [OF ok])
    show "set ts \<subseteq> set (timers s)" by (auto simp: ts_def)
    show "distinct (map fst ts)" unfolding ts_def using d(2) by (rule distinct_map_filter)
    show "distinct (map fst [])" by simp
    fix rid :: string and req :: pending_request
    assume "map_of [] rid = Some req"
    then show "\<exists>due. (pr_timeout req, due, Request_timeout rid (pr_promise req)) \<in> set ts" by simp
  qed
  have "req_view (stop s) = req_view s1"
    using True
    by (simp add: stop_def Let_def fold_clearTimeout req_view_def s1_def ts_def emit_def
        req_view_fold_close_if_open [unfolded req_view_def, simplified])
  from requests_ok_view [OF this] ok1 show ?thesis by simp
qed

text \<open>The other handlers leave the request machinery as it is.\<close>

lemma req_view_cleanup_streams: "req_view (cleanup_streams cid sts s) = req_view s"
proof (induction cid sts s rule: cleanup_streams.induct)
  case (1 cid s)
  show ?case by simp
next
  case (2 cid streamId st rest s)
  then show ?case by (simp add: req_view_def emit_def)
qed

lemma req_view_publish: "req_view (fst (publish s topic d ex)) = req_view s"
  by (simp add: publish_eq req_view_def filter_map comp_def)

lemma req_view_handleDataMessage: "req_view (handleDataMessage s w m now) = req_view s"
  by (simp add: handleDataMessage_def Let_def saveToDatabase_def saveToDatabase_settled_def
      req_view_def emit_def sendToClient_def split: option.split verdict.split)

lemma req_view_handleNewConnection: "req_view (handleNewConnection s w req clientId now) = req_view s"
  by (simp add: handleNewConnection_def Let_def req_view_def emit_def sendToClient_def ws_close_def
      setupClientEventHandlers_def startClientHeartbeat_def)

lemma req_view_handleClientDisconnection: "req_view (handleClientDisconnection s w) = req_view s"
proof -
  have "req_view (handleClientDisconnection s w)
          = req_view (cleanup_streams (cd_id (clientData s w)) (streams s)
              (s\<lparr>subscriptions := fold (unsubscribe_topic w) (cd_subscriptions (clientData s w)) (subscriptions s)\<rparr>))"
    by (simp add: handleClientDisconnection_def Let_def req_view_def emit_def)
  then show ?thesis by (simp add: req_view_cleanup_streams) (simp add: req_view_def)
qed

lemma req_view_heartbeat_tick: "req_view (heartbeat_tick s w now) = req_view s"
  by (simp add: heartbeat_tick_def Let_def req_view_def clearInterval_def ws_close_def)

lemma requests_ok_dispatch:
  assumes ok: "requests_ok s"
  shows "requests_ok (dispatch s w m now)"
proof (cases m)
  case (Auth token)
  then show ?thesis using requests_ok_handleAuthentication [OF ok] by simp
next
  case (Response requestId success d err)
  then show ?thesis using requests_ok_handleResponse [OF ok] by simp
next
  case (Handshake clientType capabilities)
  have "req_view (handleHandshake s w clientType capabilities) = req_view s"
    by (simp add: handleHandshake_def Let_def req_view_def emit_def sendToClient_def split: option.split)
  from requests_ok_view [OF this] ok Handshake show ?thesis by simp
next
  case (Sensor_data obj)
  have "req_view (handleSensorData s w obj now) = req_view s"
    by (simp add: handleSensorData_def req_view_handleDataMessage)
  from requests_ok_view [OF this] ok Sensor_data show ?thesis by simp
next
  case (Data obj)
  from requests_ok_view [OF req_view_handleDataMessage] ok Data show ?thesis by simp
next
  case (Request requestId endpoint d)
  have "req_view (handleRequest s w requestId endpoint d) = req_view s"
    by (simp add: handleRequest_def)
  from requests_ok_view [OF this] ok Request show ?thesis by simp
next
  case (Subscribe topic)
  have "req_view (handleSubscribe s w topic) = req_view s"
    by (simp add: handleSubscribe_def Let_def req_view_def emit_def sendToClient_def)
  from requests_ok_view [OF this] ok Subscribe show ?thesis by simp
next
  case (Unsubscribe topic)
  have "req_view (handleUnsubscribe s w topic) = req_view s"
    by (simp add: handleUnsubscribe_def Let_def req_view_def emit_def sendToClient_def)
  from requests_ok_view [OF this] ok Unsubscribe show ?thesis by simp
next
  case (Publish topic d)
  have "req_view (handlePublish s w topic d) = req_view s"
    by (simp add: handlePublish_def req_view_publish)
  from requests_ok_view [OF this] ok Publish show ?thesis by simp
next
  case (Rpc_call requestId meth params)
  have "req_view (handleRPCCall s w requestId meth params) = req_view s"
    by (simp add: handleRPCCall_def Let_def req_view_def sendToClient_def
        split: option.split rpc_result.split)
  from requests_ok_view [OF this] ok Rpc_call show ?thesis by simp
next
  case (Stream_start streamId streamType)
  have "req_view (handleStreamStart s w streamId streamType now) = req_view s"
    by (simp add: handleStreamStart_def Let_def req_view_def emit_def sendToClient_def)
  from requests_ok_view [OF this] ok Stream_start show ?thesis by simp
next
  case (Stream_data streamId d sequenceNumber)
  have "req_view (handleStreamData s w streamId d sequenceNumber) = req_view s"
    by (simp add: handleStreamData_def)
  from requests_ok_view [OF this] ok Stream_data show ?thesis by simp
next
  case (Stream_end streamId)
  have "req_view (handleStreamEnd s w streamId) = req_view s"
    by (simp add: handleStreamEnd_def Let_def req_view_def emit_def sendToClient_def)
  from requests_ok_view [OF this] ok Stream_end show ?thesis by simp
next
  case Heartbeat
  have "req_view (handleHeartbeat s w now) = req_view s"
    by (simp add: handleHeartbeat_def req_view_def sendToClient_def)
  from requests_ok_view [OF this] ok Heartbeat show ?thesis by simp
next
  case Ping
  from requests_ok_view [OF req_view_sendToClient] ok Ping show ?thesis by simp
next
  case (Unknown_type ty)
  from requests_ok_view [OF req_view_sendToClient] ok Unknown_type show ?thesis by simp
qed

lemma requests_ok_handleClientMessage:
  assumes ok: "requests_ok s"
  shows "requests_ok (handleClientMessage s w raw now)"
proof -
  have c: "req_view (count_message s w now) = req_view s"
    by (simp add: count_message_def req_view_def)
  from requests_ok_view [OF c] ok have okc: "requests_ok (count_message s w now)" by simp
  show ?thesis
  proof (cases "parse raw")
    case Parse_error
    have "req_view (handleClientMessage s w raw now) = req_view s"
      using Parse_error by (simp add: handleClientMessage_def handleBinaryMessage_def)
    from requests_ok_view [OF this] ok show ?thesis by simp
  next
    case Parsed_null
    have "req_view (handleClientMessage s w raw now) = req_view s"
      using Parsed_null c by (simp add: handleClientMessage_def)
    from requests_ok_view [OF this] ok show ?thesis by simp
  next
    case (Parsed m)
    with requests_ok_dispatch [OF okc] show ?thesis by (simp add: handleClientMessage_def)
  qed
qed

lemma requests_ok_step:
  assumes ok: "requests_ok s"
  shows "requests_ok (step s e)"
proof (cases e)
  case (Connects w req clientId now)
  have "req_view (connection_event s w req clientId now) = req_view s"
    by (simp add: connection_event_def req_view_handleNewConnection) (simp add: req_view_def)
  from requests_ok_view [OF this] ok Connects show ?thesis by simp
next
  case (Receives w raw now)
  then show ?thesis using requests_ok_handleClientMessage [OF ok] ok by (simp add: message_event_def)
next
  case (Closes w)
  have "req_view (close_event s w) = req_view s"
    by (simp add: close_event_def req_view_handleClientDisconnection) (simp add: req_view_def)
  from requests_ok_view [OF this] ok Closes show ?thesis by simp
next
  case (Pongs w now)
  have "req_view (pong_event s w now) = req_view s"
    by (simp add: pong_event_def on_pong_def req_view_def)
  from requests_ok_view [OF this] ok Pongs show ?thesis by simp
next
  case (Interval_fires w now)
  have "req_view (interval_event s w now) = req_view s"
    by (simp add: interval_event_def req_view_heartbeat_tick)
  from requests_ok_view [OF this] ok Interval_fires show ?thesis by simp
next
  case (Timer_fires h)
  then show ?thesis using requests_ok_timer_event [OF ok] by simp
next
  case (Db_settles w requestId outcome)
  have "req_view (saveToDatabase_settled s w requestId outcome) = req_view s"
    by (simp add: saveToDatabase_settled_def split: sum.split)
  from requests_ok_view [OF this] ok Db_settles show ?thesis by simp
next
  case (Rpc_settles w requestId outcome)
  have "req_view (rpc_promise_settled s w requestId outcome) = req_view s"
    by (simp add: rpc_promise_settled_def split: sum.split)
  from requests_ok_view [OF this] ok Rpc_settles show ?thesis by simp
next
  case (Responds w requestId responseData err)
  have "req_view (respond s w requestId responseData err) = req_view s"
    by (simp add: respond_def)
  from requests_ok_view [OF this] ok Responds show ?thesis by simp
next
  case (Calls_start listening)
  have "req_view (start s listening) = req_view s"
    by (simp add: start_def req_view_def emit_def)
  from requests_ok_view [OF this] ok Calls_start show ?thesis by simp
next
  case Calls_stop
  then show ?thesis using requests_ok_stop [OF ok] by simp
next
  case (Calls_sendRequest clientId endpoint d timeout requestId now)
  then show ?thesis using ok by (simp add: sendRequest_never_finds_the_client)
next
  case (Issues_request w requestId endpoint d timeout now)
  then show ?thesis using requests_ok_sendRequest_executor [OF ok] by simp
next
  case (Calls_publish topic d ex)
  from requests_ok_view [OF req_view_publish] ok Calls_publish show ?thesis by simp
next
  case (Calls_sendToClient clientId d)
  have "req_view (snd (sendToClient_public s clientId d)) = req_view s"
    by (simp add: sendToClient_public_def split: option.split prod.split)
  from requests_ok_view [OF this] ok Calls_sendToClient show ?thesis by simp
next
  case (Calls_startStream clientId streamId streamType)
  have "req_view (snd (startStream s clientId streamId streamType)) = req_view s"
    by (simp add: startStream_def split: option.split prod.split)
  from requests_ok_view [OF this] ok Calls_startStream show ?thesis by simp
next
  case (Calls_sendStreamData streamId d sequenceNumber)
  have "req_view (snd (sendStreamData s streamId d sequenceNumber)) = req_view s"
    by (simp add: sendStreamData_def split: option.split)
  from requests_ok_view [OF this] ok Calls_sendStreamData show ?thesis by simp
next
  case (Calls_endStream streamId)
  have "req_view (snd (endStream s streamId)) = req_view s"
    by (simp add: endStream_def Let_def req_view_def sendToClient_def split: option.split)
  from requests_ok_view [OF this] ok Calls_endStream show ?thesis by simp
next
  case (Calls_registerRPCMethod methodName handler)
  have "req_view (registerRPCMethod s methodName handler) = req_view s"
    by (simp add: registerRPCMethod_def req_view_def)
  from requests_ok_view [OF this] ok Calls_registerRPCMethod show ?thesis by simp
next
  case (Calls_unregisterRPCMethod methodName)
  have "req_view (unregisterRPCMethod s methodName) = req_view s"
    by (simp add: unregisterRPCMethod_def req_view_def)
  from requests_ok_view [OF this] ok Calls_unregisterRPCMethod show ?thesis by simp
qed

lemma requests_ok_run:
  assumes "requests_ok s"
  shows "requests_ok (run events s)"
  using assms unfolding run_def
  by (induction events arbitrary: s) (simp_all add: requests_ok_step)

lemma requests_ok_constructor: "requests_ok (constructor cfg dbInstance)"
  by (simp add: requests_ok_def constructor_def settled_def)

lemma map_of_disarmed: "map_of (filter (\<lambda>t. fst t \<noteq> h) ts) h = None"
  by (induction ts) auto

lemma handleResponse_absent:
  assumes "map_of (pendingRequests s) requestId = None"
  shows "handleResponse s w requestId success d err = s"
  using assms by (simp add: handleResponse_def)

lemma handleResponse_present:
  assumes "map_of (pendingRequests s) requestId = Some req"
  shows "map_of (pendingRequests (handleResponse s w requestId success d err)) requestId = None"
    and "map_of (timers (handleResponse s w requestId success d err)) (pr_timeout req) = None"
    and "effects (handleResponse s w requestId success d err)
           = effects s @
             [if success then Resolve (pr_promise req) d
              else Reject (pr_promise req)
                     (case err of None \<Rightarrow> ''Request failed''
                      | Some e \<Rightarrow> if e = [] then ''Request failed'' else e)]"
  using assms
  by (simp_all add: handleResponse_def Let_def clearTimeout_def delete_conv' map_of_disarmed)

lemma timer_event_disarmed:
  assumes "map_of (timers s) h = None"
  shows "timer_event s h = s"
  using assms by (simp add: timer_event_def)

lemma timer_event_request:
  assumes "map_of (timers s) h = Some (due, Request_timeout requestId p)"
  shows "map_of (pendingRequests (timer_event s h)) requestId = None"
    and "map_of (timers (timer_event s h)) h = None"
    and "effects (timer_event s h) = effects s @ [Reject p ''Request timeout'']"
  using assms
  by (simp_all add: timer_event_def Let_def clearTimeout_def request_timeout_def delete_conv'
      map_of_disarmed)

text \<open>
  Claim C3. In every state of every run the pending table has at most one entry per
  identifier, and every promise has been settled at most once. A response for an
  identifier without a pending entry changes nothing. A response for a pending identifier
  removes the entry, disarms its timer and settles the promise, once: the timer's callback
  cannot run any more, and a second response changes nothing. A request timer that runs
  out deletes the entry and rejects the promise with \<open>Request timeout\<close>; a response that
  arrives afterwards changes nothing, and the timer does not run again.
\<close>

theorem pending_request_settles_once:
  "distinct (map fst (pendingRequests (run events (constructor cfg dbInstance)))) \<and>
   settled q (effects (run events (constructor cfg dbInstance))) \<le> 1 \<and>
   (map_of (pendingRequests s) requestId = None \<longrightarrow>
      handleResponse s w requestId success d err = s) \<and>
   (map_of (pendingRequests s) requestId = Some req \<longrightarrow>
      map_of (pendingRequests (handleResponse s w requestId success d err)) requestId = None \<and>
      effects (handleResponse s w requestId success d err)
        = effects s @
          [if success then Resolve (pr_promise req) d
           else Reject (pr_promise req)
                  (case err of None \<Rightarrow> ''Request failed''
                   | Some e \<Rightarrow> if e = [] then ''Request failed'' else e)] \<and>
      timer_event (handleResponse s w requestId success d err) (pr_timeout req)
        = handleResponse s w requestId success d err \<and>
      handleResponse (handleResponse s w requestId success d err) w requestId success d err
        = handleResponse s w requestId success d err) \<and>
   (map_of (timers s) h = Some (due, Request_timeout requestId p) \<longrightarrow>
      map_of (pendingRequests (timer_event s h)) requestId = None \<and>
      effects (timer_event s h) = effects s @ [Reject p ''Request timeout''] \<and>
      handleResponse (timer_event s h) w requestId success d err = timer_event s h \<and>
      timer_event (timer_event s h) h = timer_event s h)"
proof -
  have ok: "requests_ok (run events (constructor cfg dbInstance))"
    by (rule requests_ok_run [OF requests_ok_constructor])
  have a: "distinct (map fst (pendingRequests (run events (constructor cfg dbInstance))))"
    by (rule requests_okD(1) [OF ok])
  have b: "settled q (effects (run events (constructor cfg dbInstance))) \<le> 1"
    by (rule requests_okD(7) [OF ok])
  have c: "map_of (pendingRequests s) requestId = None \<longrightarrow>
      handleResponse s w requestId success d err = s"
    by (simp add: handleResponse_absent)
  have r: "map_of (pendingRequests s) requestId = Some req \<longrightarrow>
      map_of (pendingRequests (handleResponse s w requestId success d err)) requestId = None \<and>
      effects (handleResponse s w requestId success d err)
        = effects s @
          [if success then Resolve (pr_promise req) d
           else Reject (pr_promise req)
                  (case err of None \<Rightarrow> ''Request failed''
                   | Some e \<Rightarrow> if e = [] then ''Request failed'' else e)] \<and>
      timer_event (handleResponse s w requestId success d err) (pr_timeout req)
        = handleResponse s w requestId success d err \<and>
      handleResponse (handleResponse s w requestId success d err) w requestId success d err
        = handleResponse s w requestId success d err"
  proof
    assume p: "map_of (pendingRequests s) requestId = Some req"
    note h = handleResponse_present [OF p, of w success d err]
    from h(1) h(3) timer_event_disarmed [OF h(2)] handleResponse_absent [OF h(1)]
    show "map_of (pendingRequests (handleResponse s w requestId success d err)) requestId = None \<and>
      effects (handleResponse s w requestId success d err)
        = effects s @
          [if success then Resolve (pr_promise req) d
           else Reject (pr_promise req)
                  (case err of None \<Rightarrow> ''Request failed''
                   | Some e \<Rightarrow> if e = [] then ''Request failed'' else e)] \<and>
      timer_event (handleResponse s w requestId success d err) (pr_timeout req)
        = handleResponse s w requestId success d err \<and>
      handleResponse (handleResponse s w requestId success d err) w requestId success d err
        = handleResponse s w requestId success d err"
      by blast
  qed
  have t: "map_of (timers s) h = Some (due, Request_timeout requestId p) \<longrightarrow>
      map_of (pendingRequests (timer_event s h)) requestId = None \<and>
      effects (timer_event s h) = effects s @ [Reject p ''Request timeout''] \<and>
      handleResponse (timer_event s h) w requestId success d err = timer_event s h \<and>
      timer_event (timer_event s h) h = timer_event s h"
  proof
    assume p: "map_of (timers s) h = Some (due, Request_timeout requestId p)"
    note h = timer_event_request [OF p]
    from h(1) h(3) handleResponse_absent [OF h(1)] timer_event_disarmed [OF h(2)]
    show "map_of (pendingRequests (timer_event s h)) requestId = None \<and>
      effects (timer_event s h) = effects s @ [Reject p ''Request timeout''] \<and>
      handleResponse (timer_event s h) w requestId success d err = timer_event s h \<and>
      timer_event (timer_event s h) h = timer_event s h"
      by blast
  qed
  from a b c r t show ?thesis by blast
qed

theorem pending_request_settles_once_witness:
  "map_of (pendingRequests one_client) ''req_1'' = None \<and>
   handleResponse one_client 1 ''req_1'' True (JStr ''late'') None = one_client \<and>
   map_of (pendingRequests pending_server) ''req_1'' = Some \<lparr>pr_promise = 0, pr_timeout = 0\<rparr> \<and>
   effects (handleResponse pending_server 1 ''req_1'' True (JStr ''ok'') None)
     = effects pending_server @ [Resolve 0 (JStr ''ok'')] \<and>
   timer_event (handleResponse pending_server 1 ''req_1'' True (JStr ''ok'') None) 0
     = handleResponse pending_server 1 ''req_1'' True (JStr ''ok'') None \<and>
   map_of (timers pending_server) 0 = Some (10005, Request_timeout ''req_1'' 0) \<and>
   effects (timer_event pending_server 0) = effects pending_server @ [Reject 0 ''Request timeout''] \<and>
   handleResponse (timer_event pending_server 0) 1 ''req_1'' True (JStr ''ok'') None
     = timer_event pending_server 0 \<and>
   settled 0 (effects (run late_response (constructor default_config None))) \<le> 1 \<and>
   distinct (map fst (pendingRequests (run late_response (constructor default_config None))))"
proof -
  have h1: "map_of (pendingRequests one_client) ''req_1'' = None"
    by (simp add: sample_defs handler_defs)
  have h2: "map_of (pendingRequests pending_server) ''req_1'' = Some \<lparr>pr_promise = 0, pr_timeout = 0\<rparr>"
    by (simp add: pending_server_def sendRequest_executor_def setTimeout_def sample_defs handler_defs)
  have h3: "map_of (timers pending_server) 0 = Some (10005, Request_timeout ''req_1'' 0)"
    by (simp add: pending_server_def sendRequest_executor_def setTimeout_def sample_defs handler_defs)
  note a = pending_request_settles_once [where s = one_client and requestId = "''req_1''"
      and w = 1 and success = True and d = "JStr ''late''" and err = None
      and events = late_response and cfg = default_config and dbInstance = None and q = 0]
  note b = pending_request_settles_once [where s = pending_server and requestId = "''req_1''"
      and w = 1 and success = True and d = "JStr ''ok''" and err = None
      and req = "\<lparr>pr_promise = 0, pr_timeout = 0\<rparr>" and h = 0 and due = 10005 and p = 0]
  from a h1 have c1: "handleResponse one_client 1 ''req_1'' True (JStr ''late'') None = one_client"
    by blast
  from a have c2: "settled 0 (effects (run late_response (constructor default_config None))) \<le> 1 \<and>
     distinct (map fst (pendingRequests (run late_response (constructor default_config None))))"
    by blast
  from b h2 have c3: "effects (handleResponse pending_server 1 ''req_1'' True (JStr ''ok'') None)
        = effects pending_server @
          [if True then Resolve (pr_promise \<lparr>pr_promise = 0, pr_timeout = 0\<rparr>) (JStr ''ok'')
           else Reject (pr_promise \<lparr>pr_promise = 0, pr_timeout = 0\<rparr>)
                  (case None of None \<Rightarrow> ''Request failed''
                   | Some e \<Rightarrow> if e = [] then ''Request failed'' else e)] \<and>
      timer_event (handleResponse pending_server 1 ''req_1'' True (JStr ''ok'') None)
         (pr_timeout \<lparr>pr_promise = 0, pr_timeout = 0\<rparr>)
        = handleResponse pending_server 1 ''req_1'' True (JStr ''ok'') None"
    by blast
  from b h3 have c4: "effects (timer_event pending_server 0) = effects pending_server @ [Reject 0 ''Request timeout''] \<and>
      handleResponse (timer_event pending_server 0) 1 ''req_1'' True (JStr ''ok'') None = timer_event pending_server 0"
    by blast
  from h1 h2 h3 c1 c2 c3 c4 show ?thesis by simp
qed

subsection \<open>The tables in every run\<close>

text \<open>
  The theorems on \<open>stop\<close> and on the disconnection take the registry and the stream
  table to have distinct keys. Every run keeps them so.
\<close>

lemma tables_sendToClient [simp]:
  "streams (sendToClient s w m) = streams s" "clients (sendToClient s w m) = clients s"
  by (simp_all add: sendToClient_def)

lemma tables_emit [simp]:
  "streams (emit s n a) = streams s" "clients (emit s n a) = clients s"
  by (simp_all add: emit_def)

lemma tables_ws_close [simp]:
  "streams (ws_close s w c r) = streams s" "clients (ws_close s w c r) = clients s"
  by (simp_all add: ws_close_def)

lemma tables_publish [simp]:
  "streams (fst (publish s topic d ex)) = streams s" "clients (fst (publish s topic d ex)) = clients s"
  by (simp_all add: publish_eq)

lemma tables_fold_close_if_open [simp]:
  "streams (fold close_if_open sockets s) = streams s"
  "clients (fold close_if_open sockets s) = clients s"
  by (induction sockets arbitrary: s) (simp_all add: close_if_open_def)

lemma tables_handleDataMessage [simp]:
  "streams (handleDataMessage s w m now) = streams s"
  "clients (handleDataMessage s w m now) = clients s"
  by (simp_all add: handleDataMessage_def Let_def saveToDatabase_def saveToDatabase_settled_def
      split: option.split verdict.split)

lemma distinct_set_add: "distinct xs \<Longrightarrow> distinct (set_add x xs)"
  by (simp add: set_add_def)

lemma distinct_set_delete: "distinct xs \<Longrightarrow> distinct (set_delete x xs)"
  by (simp add: set_delete_def)

lemma tables_ok_same:
  assumes "streams s' = streams s" and "clients s' = clients s" and "tables_ok s"
  shows "tables_ok s'"
  using assms by (simp add: tables_ok_def)

lemma tables_ok_dispatch:
  assumes ok: "tables_ok s"
  shows "tables_ok (dispatch s w m now)"
proof (cases m)
  case (Handshake clientType capabilities)
  with ok show ?thesis
    by (simp add: tables_ok_def handleHandshake_def Let_def split: option.split)
next
  case (Auth token)
  with ok show ?thesis
    by (simp add: tables_ok_def handleAuthentication_def Let_def setTimeout_def)
next
  case (Sensor_data obj)
  with ok show ?thesis by (simp add: tables_ok_def handleSensorData_def)
next
  case (Data obj)
  with ok show ?thesis by (simp add: tables_ok_def)
next
  case (Request requestId endpoint d)
  with ok show ?thesis by (simp add: tables_ok_def handleRequest_def)
next
  case (Response requestId success d err)
  with ok show ?thesis
    by (simp add: tables_ok_def handleResponse_def Let_def clearTimeout_def split: option.split)
next
  case (Subscribe topic)
  with ok show ?thesis by (simp add: tables_ok_def handleSubscribe_def Let_def)
next
  case (Unsubscribe topic)
  with ok show ?thesis by (simp add: tables_ok_def handleUnsubscribe_def Let_def)
next
  case (Publish topic d)
  with ok show ?thesis by (simp add: tables_ok_def handlePublish_def)
next
  case (Rpc_call requestId meth params)
  with ok show ?thesis
    by (simp add: tables_ok_def handleRPCCall_def Let_def split: option.split rpc_result.split)
next
  case (Stream_start streamId streamType)
  with ok show ?thesis
    by (simp add: tables_ok_def handleStreamStart_def Let_def distinct_update)
next
  case (Stream_data streamId d sequenceNumber)
  with ok show ?thesis by (simp add: tables_ok_def handleStreamData_def)
next
  case (Stream_end streamId)
  with ok show ?thesis
    by (simp add: tables_ok_def handleStreamEnd_def Let_def distinct_delete)
next
  case Heartbeat
  with ok show ?thesis by (simp add: tables_ok_def handleHeartbeat_def)
next
  case Ping
  with ok show ?thesis by (simp add: tables_ok_def)
next
  case (Unknown_type ty)
  with ok show ?thesis by (simp add: tables_ok_def)
qed

lemma tables_ok_handleClientMessage:
  assumes ok: "tables_ok s"
  shows "tables_ok (handleClientMessage s w raw now)"
proof -
  have c: "tables_ok (count_message s w now)"
    using ok by (simp add: tables_ok_def count_message_def)
  show ?thesis
  proof (cases "parse raw")
    case Parse_error
    with ok show ?thesis
      by (simp add: tables_ok_def handleClientMessage_def handleBinaryMessage_def)
  next
    case Parsed_null
    with c show ?thesis by (simp add: tables_ok_def handleClientMessage_def)
  next
    case (Parsed m)
    with tables_ok_dispatch [OF c] show ?thesis by (simp add: handleClientMessage_def)
  qed
qed

lemma tables_ok_handleClientDisconnection:
  assumes ok: "tables_ok s"
  shows "tables_ok (handleClientDisconnection s w)"
proof -
  from ok have d: "distinct (map fst (streams s))" and c: "distinct (clients s)"
    by (simp_all add: tables_ok_def)
  have "distinct (map fst (streams (handleClientDisconnection s w)))"
    unfolding streams_handleClientDisconnection [OF d] using d by (rule distinct_map_filter)
  moreover have "distinct (clients (handleClientDisconnection s w))"
    using c by (simp add: handleClientDisconnection_fields distinct_set_delete)
  ultimately show ?thesis by (simp add: tables_ok_def)
qed

lemma tables_ok_step:
  assumes ok: "tables_ok s"
  shows "tables_ok (step s e)"
proof (cases e)
  case (Connects w req clientId now)
  with ok show ?thesis
    by (simp add: tables_ok_def connection_event_def handleNewConnection_def Let_def
        setupClientEventHandlers_def startClientHeartbeat_def distinct_set_add)
next
  case (Receives w raw now)
  with ok tables_ok_handleClientMessage [OF ok] show ?thesis by (simp add: message_event_def)
next
  case (Closes w)
  have "tables_ok (s\<lparr>readyState := (readyState s)(w := CLOSED), listeners := set_delete w (listeners s)\<rparr>)"
    using ok by (simp add: tables_ok_def)
  from tables_ok_handleClientDisconnection [OF this] ok Closes show ?thesis
    by (simp add: close_event_def)
next
  case (Pongs w now)
  with ok show ?thesis by (simp add: tables_ok_def pong_event_def on_pong_def)
next
  case (Interval_fires w now)
  with ok show ?thesis
    by (simp add: tables_ok_def interval_event_def heartbeat_tick_def Let_def clearInterval_def)
next
  case (Timer_fires h)
  with ok show ?thesis
    by (simp add: tables_ok_def timer_event_def Let_def clearTimeout_def request_timeout_def
        auth_failed_close_def split: option.split timer_callback.split)
next
  case (Db_settles w requestId outcome)
  with ok show ?thesis by (simp add: tables_ok_def saveToDatabase_settled_def split: sum.split)
next
  case (Rpc_settles w requestId outcome)
  with ok show ?thesis by (simp add: tables_ok_def rpc_promise_settled_def split: sum.split)
next
  case (Responds w requestId responseData err)
  with ok show ?thesis by (simp add: tables_ok_def respond_def)
next
  case (Calls_start listening)
  with ok show ?thesis by (simp add: tables_ok_def start_def)
next
  case Calls_stop
  with ok show ?thesis by (simp add: tables_ok_def stop_def Let_def)
next
  case (Calls_sendRequest clientId endpoint d timeout requestId now)
  with ok show ?thesis by (simp add: sendRequest_never_finds_the_client)
next
  case (Issues_request w requestId endpoint d timeout now)
  with ok show ?thesis
    by (simp add: tables_ok_def sendRequest_executor_def Let_def setTimeout_def)
next
  case (Calls_publish topic d ex)
  with ok show ?thesis by (simp add: tables_ok_def)
next
  case (Calls_sendToClient clientId d)
  with ok show ?thesis
    by (simp add: tables_ok_def sendToClient_public_def split: option.split prod.split)
next
  case (Calls_startStream clientId streamId streamType)
  with ok show ?thesis
    by (simp add: tables_ok_def startStream_def split: option.split prod.split)
next
  case (Calls_sendStreamData streamId d sequenceNumber)
  with ok show ?thesis by (simp add: tables_ok_def sendStreamData_def split: option.split)
next
  case (Calls_endStream streamId)
  with ok show ?thesis
    by (simp add: tables_ok_def endStream_def Let_def distinct_delete split: option.split)
next
  case (Calls_registerRPCMethod methodName handler)
  with ok show ?thesis by (simp add: tables_ok_def registerRPCMethod_def)
next
  case (Calls_unregisterRPCMethod methodName)
  with ok show ?thesis by (simp add: tables_ok_def unregisterRPCMethod_def)
qed

lemma tables_ok_run:
  assumes "tables_ok s"
  shows "tables_ok (run events s)"
  using assms unfolding run_def
  by (induction events arbitrary: s) (simp_all add: tables_ok_step)

lemma tables_distinct_in_every_run:
  "distinct (map fst (streams (run events (constructor cfg dbInstance)))) \<and>
   distinct (clients (run events (constructor cfg dbInstance)))"
proof -
  have "tables_ok (constructor cfg dbInstance)" by (simp add: tables_ok_def constructor_def)
  from tables_ok_run [OF this] show ?thesis by (simp add: tables_ok_def)
qed

subsection \<open>The subscription index and the connections' own sets\<close>

text \<open>
  The disconnection walks the connection's own subscription set. Subscribing and
  unsubscribing keep the index within that set, for every socket \<open>v\<close>: where the index
  lists \<open>v\<close> under a topic, the set of \<open>v\<close> holds the topic.
\<close>

lemma subscriptions_sendToClient [simp]: "subscriptions (sendToClient s w m) = subscriptions s"
  by (simp add: sendToClient_def)

lemma subscriptions_emit [simp]: "subscriptions (emit s n a) = subscriptions s"
  by (simp add: emit_def)

lemma subscribers_of_handleSubscribe:
  "subscribers_of (handleSubscribe s w t) topic
     = (if enablePubSub (config s) \<and> topic = t then set_add w (subscribers_of s t)
        else subscribers_of s topic)"
proof (cases "enablePubSub (config s)")
  case False
  then show ?thesis by (simp add: handleSubscribe_def subscribers_of_def)
next
  case True
  then show ?thesis
    by (cases "map_of (subscriptions s) t")
       (simp_all add: handleSubscribe_def subscribers_of_def Let_def update_conv')
qed

lemma subscribe_keeps_index:
  assumes "\<forall>topic. v \<in> set (subscribers_of s topic) \<longrightarrow> topic \<in> set (cd_subscriptions (clientData s v))"
  shows "\<forall>topic. v \<in> set (subscribers_of (handleSubscribe s w t) topic)
           \<longrightarrow> topic \<in> set (cd_subscriptions (clientData (handleSubscribe s w t) v))"
proof (cases "enablePubSub (config s)")
  case False
  with assms show ?thesis by (simp add: handleSubscribe_def subscribers_of_def)
next
  case True
  show ?thesis
  proof (intro allI impI)
    fix topic
    assume a: "v \<in> set (subscribers_of (handleSubscribe s w t) topic)"
    have cd: "cd_subscriptions (clientData (handleSubscribe s w t) v)
                = (if v = w then set_add t (cd_subscriptions (clientData s w))
                   else cd_subscriptions (clientData s v))"
      using True by (simp add: handleSubscribe_def Let_def)
    from a True have "v \<in> set (if topic = t then set_add w (subscribers_of s t) else subscribers_of s topic)"
      by (simp add: subscribers_of_handleSubscribe)
    then show "topic \<in> set (cd_subscriptions (clientData (handleSubscribe s w t) v))"
      using assms unfolding cd by (auto simp add: set_add_def split: if_splits)
  qed
qed

lemma subscribers_of_handleUnsubscribe:
  "subscribers_of (handleUnsubscribe s w t) topic
     = (if topic = t then set_delete w (subscribers_of s t) else subscribers_of s topic)"
  by (auto simp add: handleUnsubscribe_def subscribers_of_def Let_def map_of_unsubscribe_topic
     without_socket_def set_delete_def split: option.split)

lemma unsubscribe_keeps_index:
  assumes "\<forall>topic. v \<in> set (subscribers_of s topic) \<longrightarrow> topic \<in> set (cd_subscriptions (clientData s v))"
  shows "\<forall>topic. v \<in> set (subscribers_of (handleUnsubscribe s w t) topic)
           \<longrightarrow> topic \<in> set (cd_subscriptions (clientData (handleUnsubscribe s w t) v))"
proof (intro allI impI)
  fix topic
  assume a: "v \<in> set (subscribers_of (handleUnsubscribe s w t) topic)"
  have cd: "cd_subscriptions (clientData (handleUnsubscribe s w t) v)
              = (if v = w then set_delete t (cd_subscriptions (clientData s w))
                 else cd_subscriptions (clientData s v))"
    by (simp add: handleUnsubscribe_def Let_def)
  from a have "v \<in> set (if topic = t then set_delete w (subscribers_of s t) else subscribers_of s topic)"
    by (simp add: subscribers_of_handleUnsubscribe)
  then show "topic \<in> set (cd_subscriptions (clientData (handleUnsubscribe s w t) v))"
    using assms unfolding cd by (auto simp add: set_delete_def split: if_splits)
qed

subsection \<open>Where the counter follows the registry\<close>

text \<open>
  An accepted connection, the disconnection of a registered socket and \<open>stop()\<close> keep the
  counter equal to the size of the registry. The disconnection of a socket that is not
  registered, as after \<open>stop()\<close>, lowers the counter and leaves the registry as it is.
\<close>

lemma length_set_delete:
  assumes "distinct xs" and "x \<in> set xs"
  shows "int (length (set_delete x xs)) = int (length xs) - 1"
  using assms
proof (induction xs)
  case Nil
  then show ?case by simp
next
  case (Cons a xs)
  show ?case
  proof (cases "a = x")
    case True
    with Cons.prems have "x \<notin> set xs" by simp
    then have "filter (\<lambda>y. y \<noteq> x) xs = xs" by (induction xs) auto
    with True show ?thesis by (simp add: set_delete_def)
  next
    case False
    with Cons.prems have "distinct xs" "x \<in> set xs" by simp_all
    from Cons.IH [OF this] False show ?thesis by (simp add: set_delete_def)
  qed
qed

lemma counter_kept_by_connection:
  assumes "connectionCount s = int (length (clients s))" and "w \<notin> set (clients s)"
  shows "connectionCount (handleNewConnection s w req clientId now)
           = int (length (clients (handleNewConnection s w req clientId now)))"
  using assms
  by (simp add: handleNewConnection_def Let_def setupClientEventHandlers_def
      startClientHeartbeat_def set_add_def emit_def sendToClient_def ws_close_def)

lemma counter_kept_by_disconnection:
  assumes "connectionCount s = int (length (clients s))"
    and "distinct (clients s)" and "w \<in> set (clients s)"
  shows "connectionCount (handleClientDisconnection s w)
           = int (length (clients (handleClientDisconnection s w)))"
  using assms by (simp add: handleClientDisconnection_fields length_set_delete)

lemma counter_reset_by_stop:
  assumes "isRunning s"
  shows "connectionCount (stop s) = int (length (clients (stop s)))"
  using assms by (simp add: stop_def Let_def emit_def)

lemma counter_lost_after_stop:
  assumes "w \<notin> set (clients s)"
  shows "connectionCount (handleClientDisconnection s w) = connectionCount s - 1"
    and "clients (handleClientDisconnection s w) = clients s"
proof -
  from assms have "filter (\<lambda>y. y \<noteq> w) (clients s) = clients s"
    by (induction "clients s") (auto intro: filter_True)
  then show "clients (handleClientDisconnection s w) = clients s"
    by (simp add: handleClientDisconnection_fields set_delete_def)
  show "connectionCount (handleClientDisconnection s w) = connectionCount s - 1"
    by (simp add: handleClientDisconnection_fields)
qed

subsection \<open>Stopping after a run of the program\<close>














end
